theory Spec2Isabelle
  imports Main
begin

section \<open>Data model\<close>

text \<open>
  The service of \<^verbatim>\<open>main.py\<close> keeps a list of users in one JSON file and answers
  SOAP-like requests posted to \<^verbatim>\<open>/soap\<close>. The class \<^verbatim>\<open>User\<close> has four required
  fields: \<^verbatim>\<open>id: int\<close>, \<^verbatim>\<open>name: str\<close>, \<^verbatim>\<open>email: str\<close>, \<^verbatim>\<open>age: int\<close>.
  Python integers are unbounded, so they are \<^typ>\<open>int\<close>; texts are \<^typ>\<open>string\<close>
  (the payloads considered are ASCII).
\<close>

record User =
  user_id :: int
  user_name :: string
  user_email :: string
  user_age :: int

text \<open>
  Three things can make the handler raise: the data file cannot be loaded into a list
  of \<^verbatim>\<open>User\<close> objects (\<^verbatim>\<open>open\<close>, \<^verbatim>\<open>json.load\<close> or \<^verbatim>\<open>User(**user)\<close> fails in
  \<^verbatim>\<open>read_users\<close>), the constructor \<^verbatim>\<open>User(...)\<close> rejects a field value, or
  \<^verbatim>\<open>int(...)\<close> rejects the digits of an id or an age in the request interpreter.
\<close>

datatype error = StorageError | ValidationError | ValueError

text \<open>
  The content of \<^verbatim>\<open>users.json\<close>, as \<^verbatim>\<open>read_users\<close> sees it: either it loads into a
  list of users, or it does not (absent, not JSON, or not a list of user objects).
\<close>

datatype data_file = Unreadable | Stored "User list"

text \<open>
  The disk: the data file, and how many times \<^verbatim>\<open>write_users\<close> has rewritten it. The
  counter tells a request that leaves the file alone from one that writes the same
  content again. \<^verbatim>\<open>write_users\<close> is the write that succeeds: a failure of the file
  system while writing is not part of this model.
\<close>

record disk =
  contents :: data_file
  writes :: nat

definition read_users :: "disk \<Rightarrow> error + User list" where
  "read_users d = (case contents d of Unreadable \<Rightarrow> Inl StorageError | Stored users \<Rightarrow> Inr users)"

definition write_users :: "User list \<Rightarrow> disk \<Rightarrow> disk" where
  "write_users users d = d\<lparr>contents := Stored users, writes := Suc (writes d)\<rparr>"

text \<open>
  The constructor call \<^verbatim>\<open>User(id=.., name=.., email=.., age=..)\<close> of the create branch.
  The fields are required and typed \<^verbatim>\<open>str\<close> and \<^verbatim>\<open>int\<close>: the value \<^verbatim>\<open>None\<close>, which
  \<^verbatim>\<open>params.get\<close> returns for an absent key, is rejected by the model class.
\<close>

definition new_User :: "int \<Rightarrow> string \<Rightarrow> string option \<Rightarrow> int option \<Rightarrow> error + User" where
  "new_User i n e a =
     (case e of
        None \<Rightarrow> Inl ValidationError
      | Some e' \<Rightarrow>
          (case a of
             None \<Rightarrow> Inl ValidationError
           | Some a' \<Rightarrow> Inr \<lparr>user_id = i, user_name = n, user_email = e', user_age = a'\<rparr>))"

section \<open>Text helpers\<close>

text \<open>\<^verbatim>\<open>str(n)\<close> for an integer: decimal digits, with a minus sign when negative.\<close>

fun str_nat :: "nat \<Rightarrow> string" where
  "str_nat n =
     (if n < 10 then [char_of (48 + n)]
      else str_nat (n div 10) @ [char_of (48 + n mod 10)])"

definition str_int :: "int \<Rightarrow> string" where
  "str_int i = (if i < 0 then CHR ''-'' # str_nat (nat (- i)) else str_nat (nat i))"

text \<open>\<^verbatim>\<open>str(params.get('name'))\<close>: the text itself, or \<^verbatim>\<open>'None'\<close> for an absent key.\<close>

definition str_opt :: "string option \<Rightarrow> string" where
  "str_opt v = (case v of None \<Rightarrow> ''None'' | Some s \<Rightarrow> s)"

text \<open>\<^verbatim>\<open>sep.join(parts)\<close>.\<close>

fun join :: "string \<Rightarrow> string list \<Rightarrow> string" where
  "join sep [] = []"
| "join sep [p] = p"
| "join sep (p # q # ps) = p @ sep @ join sep (q # ps)"

fun startswith :: "string \<Rightarrow> string \<Rightarrow> bool" where
  "startswith s [] = True"
| "startswith [] (p # ps) = False"
| "startswith (c # cs) (p # ps) = (c = p \<and> startswith cs ps)"

text \<open>\<^verbatim>\<open>p in s\<close> on texts: \<open>p\<close> occurs somewhere in \<open>s\<close>.\<close>

fun contains :: "string \<Rightarrow> string \<Rightarrow> bool" where
  "contains [] p = (p = [])"
| "contains (c # cs) p = (startswith (c # cs) p \<or> contains cs p)"

section \<open>Envelope and record formatting\<close>

definition create_soap_response :: "string \<Rightarrow> string" where
  \<open>create_soap_response body_content =
     ''<?xml version="1-0" encoding="UTF-8"?>\<newline>'' @
     ''<soap:Envelope xmlns:soap="http://schemas.xmlsoap.org/soap/envelope/">\<newline>'' @
     ''    <soap:Body>\<newline>'' @
     ''        '' @ body_content @ ''\<newline>'' @
     ''    </soap:Body>\<newline>'' @
     ''</soap:Envelope>''\<close>

definition user_to_xml :: "User \<Rightarrow> string" where
  "user_to_xml user =
     ''<User>\<newline>'' @
     ''    <id>'' @ str_int (user_id user) @ ''</id>\<newline>'' @
     ''    <name>'' @ user_name user @ ''</name>\<newline>'' @
     ''    <email>'' @ user_email user @ ''</email>\<newline>'' @
     ''    <age>'' @ str_int (user_age user) @ ''</age>\<newline>'' @
     ''</User>''"

section \<open>Request interpreter\<close>

text \<open>
  The character classes of the regular expressions, on ASCII: \<^verbatim>\<open>\d\<close> is a decimal
  digit, \<^verbatim>\<open>\w\<close> a letter, a digit or the underscore.
\<close>

definition is_digit :: "char \<Rightarrow> bool" where
  "is_digit c = (let n = (of_char c :: nat) in 48 \<le> n \<and> n \<le> 57)"

definition is_word :: "char \<Rightarrow> bool" where
  "is_word c =
     (let n = (of_char c :: nat)
      in (48 \<le> n \<and> n \<le> 57) \<or> (65 \<le> n \<and> n \<le> 90) \<or> (97 \<le> n \<and> n \<le> 122) \<or> n = 95)"

definition not_lt :: "char \<Rightarrow> bool" where
  "not_lt c = (c \<noteq> CHR ''<'')"

text \<open>
  \<^verbatim>\<open>re.search\<close> tries the pattern at every position from the left and returns
  the first match; \<open>m\<close> is the pattern anchored at the start of its argument.
\<close>

fun re_search :: "(string \<Rightarrow> 'a option) \<Rightarrow> string \<Rightarrow> 'a option" where
  "re_search m [] = m []"
| "re_search m (c # cs) = (case m (c # cs) of Some v \<Rightarrow> Some v | None \<Rightarrow> re_search m cs)"

text \<open>
  The anchored pattern \<^verbatim>\<open><(\w+)Request\<close>. The group is greedy: of the word
  characters after \<^verbatim>\<open><\<close> it takes the longest non-empty prefix that is followed by
  \<^verbatim>\<open>Request\<close>. The letters of \<^verbatim>\<open>Request\<close> are word characters, so both lie within the
  maximal run of word characters.
\<close>

definition match_operation :: "string \<Rightarrow> string option" where
  "match_operation s =
     (case s of
        [] \<Rightarrow> None
      | c # rest \<Rightarrow>
          if c = CHR ''<'' then
            (let run = takeWhile is_word rest
             in case filter (\<lambda>k. startswith (drop k run) ''Request'') (rev [1..<Suc (length run)]) of
                  [] \<Rightarrow> None
                | k # _ \<Rightarrow> Some (take k run))
          else None)"

text \<open>
  The anchored patterns \<^verbatim>\<open><id>(\d+)</id>\<close>, \<^verbatim>\<open><name>([^<]+)</name>\<close> and their like:
  an opening tag, a non-empty group of characters of one class, a closing tag. The
  closing tag starts with \<^verbatim>\<open><\<close>, which is in neither class, so the greedy group is
  the maximal run and no shorter group can match.
\<close>

definition match_tagged :: "string \<Rightarrow> (char \<Rightarrow> bool) \<Rightarrow> string \<Rightarrow> string \<Rightarrow> string option" where
  "match_tagged otag cls ctag s =
     (if startswith s otag then
        (let rest = drop (length otag) s; v = takeWhile cls rest
         in if v \<noteq> [] \<and> startswith (dropWhile cls rest) ctag then Some v else None)
      else None)"

text \<open>\<^verbatim>\<open>int(text)\<close> on a non-empty text of decimal digits.\<close>

definition int_of_digits :: "string \<Rightarrow> int" where
  "int_of_digits ds = foldl (\<lambda>acc c. acc * 10 + (int (of_char c) - 48)) 0 ds"

text \<open>
  \<^verbatim>\<open>int(text)\<close> as the interpreter runs it: the conversion of decimal text is limited
  (4300 digits by default), and a longer text raises \<^verbatim>\<open>ValueError\<close>.
\<close>

definition max_str_digits :: nat where
  "max_str_digits = 4300"

definition py_int :: "string \<Rightarrow> error + int" where
  "py_int ds = (if max_str_digits < length ds then Inl ValueError else Inr (int_of_digits ds))"

text \<open>
  The payloads on which the character classes above are those of the source: texts
  of ASCII characters.
\<close>

definition is_ascii :: "string \<Rightarrow> bool" where
  "is_ascii s = list_all (\<lambda>c. (of_char c :: nat) < 128) s"

text \<open>The dictionary \<^verbatim>\<open>params\<close>: each of the four keys is present or not.\<close>

record params =
  p_id :: "int option"
  p_name :: "string option"
  p_email :: "string option"
  p_age :: "int option"

definition find_int :: "string \<Rightarrow> string \<Rightarrow> string \<Rightarrow> string \<Rightarrow> error + int option" where
  "find_int key otag ctag xml_content =
     (if contains xml_content key then
        (case re_search (match_tagged otag is_digit ctag) xml_content of
           None \<Rightarrow> Inr None
         | Some ds \<Rightarrow> (case py_int ds of Inl e \<Rightarrow> Inl e | Inr n \<Rightarrow> Inr (Some n)))
      else Inr None)"

definition find_text :: "string \<Rightarrow> string \<Rightarrow> string \<Rightarrow> string \<Rightarrow> string option" where
  "find_text key otag ctag xml_content =
     (if contains xml_content key then re_search (match_tagged otag not_lt ctag) xml_content
      else None)"

text \<open>
  \<^verbatim>\<open>parse_soap_request\<close> returns the empty dictionary when no operation is found
  (\<open>None\<close> here), and otherwise a dictionary with the keys \<^verbatim>\<open>operation\<close> and
  \<^verbatim>\<open>params\<close>. The fields are looked for in the order id, name, email, age, and the
  function raises where \<^verbatim>\<open>int\<close> does.
\<close>

definition parse_soap_request :: "string \<Rightarrow> error + (string \<times> params) option" where
  "parse_soap_request xml_content =
     (case re_search match_operation xml_content of
        None \<Rightarrow> Inr None
      | Some op_name \<Rightarrow>
          (case find_int ''id>'' ''<id>'' ''</id>'' xml_content of
             Inl e \<Rightarrow> Inl e
           | Inr id_param \<Rightarrow>
               (let name_param = find_text ''name>'' ''<name>'' ''</name>'' xml_content;
                    email_param = find_text ''email>'' ''<email>'' ''</email>'' xml_content
                in case find_int ''age>'' ''<age>'' ''</age>'' xml_content of
                     Inl e \<Rightarrow> Inl e
                   | Inr age_param \<Rightarrow>
                       Inr (Some (op_name,
                         \<lparr>p_id = id_param, p_name = name_param, p_email = email_param,
                          p_age = age_param\<rparr>)))))"

section \<open>Operation dispatcher\<close>

text \<open>
  What the endpoint returns when it does not raise: a \<^verbatim>\<open>Response\<close> built with
  \<^verbatim>\<open>content\<close> and \<^verbatim>\<open>media_type\<close> only, so its status code is the default 200.
\<close>

record response =
  status_code :: nat
  media_type :: string
  content :: string

definition xml_response :: "string \<Rightarrow> response" where
  "xml_response response_body =
     \<lparr>status_code = 200, media_type = ''text/xml'',
      content = create_soap_response response_body\<rparr>"

text \<open>\<^verbatim>\<open>soap_data.get('params', {})\<close> when the parser found no operation.\<close>

definition no_params :: params where
  "no_params = \<lparr>p_id = None, p_name = None, p_email = None, p_age = None\<rparr>"

text \<open>\<^verbatim>\<open>max(ids, default=0)\<close>.\<close>

definition max_default :: "int list \<Rightarrow> int \<Rightarrow> int" where
  "max_default xs d = (case xs of [] \<Rightarrow> d | x # rest \<Rightarrow> fold max rest x)"

text \<open>
  \<^verbatim>\<open>next((u for u in users if u.id == user_id), None)\<close>. The id searched for is
  \<^verbatim>\<open>params.get('id')\<close>, which is \<^verbatim>\<open>None\<close> when the key is absent; an integer is
  never equal to \<^verbatim>\<open>None\<close>.
\<close>

definition find_user :: "int option \<Rightarrow> User list \<Rightarrow> User option" where
  "find_user uid users = find (\<lambda>u. Some (user_id u) = uid) users"

text \<open>The three conditional assignments of the update branch.\<close>

definition assign_fields :: "params \<Rightarrow> User \<Rightarrow> User" where
  "assign_fields ps u =
     (let u1 = (case p_name ps of None \<Rightarrow> u | Some n \<Rightarrow> u\<lparr>user_name := n\<rparr>);
          u2 = (case p_email ps of None \<Rightarrow> u1 | Some e \<Rightarrow> u1\<lparr>user_email := e\<rparr>);
          u3 = (case p_age ps of None \<Rightarrow> u2 | Some a \<Rightarrow> u2\<lparr>user_age := a\<rparr>)
      in u3)"

text \<open>
  The loop of the update branch: it walks the list, changes the first record whose
  id is the one searched for and stops there. It returns the list and the updated
  record, \<open>None\<close> when \<^verbatim>\<open>user_found\<close> stays false.
\<close>

fun update_loop :: "int option \<Rightarrow> params \<Rightarrow> User list \<Rightarrow> User list \<times> User option" where
  "update_loop uid ps [] = ([], None)"
| "update_loop uid ps (u # us) =
     (if Some (user_id u) = uid then
        (let u' = assign_fields ps u in (u' # us, Some u'))
      else
        (let (us', found) = update_loop uid ps us in (u # us', found)))"

text \<open>
  The handler of \<^verbatim>\<open>POST /soap\<close>, on the decoded body. It takes the disk and returns
  the response, or the exception that escapes, with the disk afterwards.
\<close>

definition soap_endpoint :: "disk \<Rightarrow> string \<Rightarrow> (error + response) \<times> disk" where
  "soap_endpoint db xml_content =
     (case parse_soap_request xml_content of
        Inl e \<Rightarrow> (Inl e, db)
      | Inr soap_data \<Rightarrow>
     (let operation = map_option fst soap_data;
          params = (case soap_data of None \<Rightarrow> no_params | Some d \<Rightarrow> snd d)
      in
        if operation = Some ''GetAllUsers'' then
          (case read_users db of
             Inl e \<Rightarrow> (Inl e, db)
           | Inr users \<Rightarrow>
               (let users_xml = join ''\<newline>        '' (map user_to_xml users)
                in (Inr (xml_response
                      (''<GetAllUsersResponse>\<newline>        '' @ users_xml @
                       ''\<newline>    </GetAllUsersResponse>'')), db)))
        else if operation = Some ''GetUser'' then
          (let uid = p_id params
           in case read_users db of
                Inl e \<Rightarrow> (Inl e, db)
              | Inr users \<Rightarrow>
                  (case find_user uid users of
                     Some user \<Rightarrow>
                       (Inr (xml_response
                          (''<GetUserResponse>\<newline>        '' @ user_to_xml user @
                           ''\<newline>    </GetUserResponse>'')), db)
                   | None \<Rightarrow>
                       (Inr (xml_response
                          (''<GetUserResponse>\<newline>        <error>User not found</error>'' @
                           ''\<newline>    </GetUserResponse>'')), db)))
        else if operation = Some ''CreateUser'' then
          (case read_users db of
             Inl e \<Rightarrow> (Inl e, db)
           | Inr users \<Rightarrow>
               (let new_id = max_default (map user_id users) 0 + 1
                in case new_User new_id (str_opt (p_name params)) (p_email params) (p_age params) of
                     Inl e \<Rightarrow> (Inl e, db)
                   | Inr new_user \<Rightarrow>
                       (Inr (xml_response
                          (''<CreateUserResponse>\<newline>        <success>true</success>'' @
                           ''\<newline>        '' @ user_to_xml new_user @
                           ''\<newline>    </CreateUserResponse>'')),
                        write_users (users @ [new_user]) db)))
        else if operation = Some ''UpdateUser'' then
          (let uid = p_id params
           in case read_users db of
                Inl e \<Rightarrow> (Inl e, db)
              | Inr users \<Rightarrow>
                  (case update_loop uid params users of
                     (users', Some updated_user) \<Rightarrow>
                       (Inr (xml_response
                          (''<UpdateUserResponse>\<newline>        <success>true</success>'' @
                           ''\<newline>        <message>User updated successfully</message>'' @
                           ''\<newline>        '' @ user_to_xml updated_user @
                           ''\<newline>    </UpdateUserResponse>'')),
                        write_users users' db)
                   | (users', None) \<Rightarrow>
                       (Inr (xml_response
                          (''<UpdateUserResponse>\<newline>        <success>false</success>'' @
                           ''\<newline>        <error>User not found</error>'' @
                           ''\<newline>    </UpdateUserResponse>'')), db)))
        else if operation = Some ''DeleteUser'' then
          (let uid = p_id params
           in case read_users db of
                Inl e \<Rightarrow> (Inl e, db)
              | Inr users \<Rightarrow>
                  (let users' = filter (\<lambda>u. Some (user_id u) \<noteq> uid) users
                   in (Inr (xml_response
                         (''<DeleteUserResponse>\<newline>        <success>true</success>'' @
                          ''\<newline>        <message>User deleted successfully</message>'' @
                          ''\<newline>    </DeleteUserResponse>'')),
                       write_users users' db)))
        else
          (Inr (xml_response
             (''<Error>\<newline>        <message>Unknown operation</message>'' @
              ''\<newline>    </Error>'')), db)))"

text \<open>Requests served one after the other, each on the disk the previous one left.\<close>

fun serve :: "disk \<Rightarrow> string list \<Rightarrow> disk" where
  "serve db [] = db"
| "serve db (b # bs) = serve (snd (soap_endpoint db b)) bs"

text \<open>
  A valid create request: the operation is \<^verbatim>\<open>CreateUser\<close> and the payload supplies
  name, email and age.
\<close>

definition valid_create :: "string \<Rightarrow> bool" where
  "valid_create b =
     (case parse_soap_request b of
        Inl e \<Rightarrow> False
      | Inr None \<Rightarrow> False
      | Inr (Some (op_name, ps)) \<Rightarrow>
          op_name = ''CreateUser'' \<and> p_name ps \<noteq> None \<and> p_email ps \<noteq> None \<and> p_age ps \<noteq> None)"

text \<open>
  The id the specification promises to a new record: one more than the largest id
  in the store, or 1 when the store is empty. This one follows the specification's
  words; the handler computes \<^verbatim>\<open>max([u.id for u in users], default=0) + 1\<close>.
\<close>

definition spec_next_id :: "User list \<Rightarrow> int" where
  "spec_next_id us = (if us = [] then 1 else Max (user_id ` set us) + 1)"

section \<open>The dispatcher, one operation at a time\<close>

lemma max_default_Max:
  assumes "xs \<noteq> []"
  shows "max_default xs d = Max (set xs)"
proof (cases xs)
  case Nil
  with assms show ?thesis by simp
next
  case (Cons x rest)
  have "Max (set (x # rest)) = fold max rest x" by (rule Max.set_eq_fold)
  with Cons show ?thesis by (simp add: max_default_def)
qed

lemma max_default_ge: "x \<in> set xs \<Longrightarrow> x \<le> max_default xs d"
  by (cases "xs = []") (auto simp: max_default_Max)

lemma soap_get_user:
  assumes "parse_soap_request b = Inr (Some (''GetUser'', ps))" and "contents d = Stored us"
  shows "soap_endpoint d b =
    (case find_user (p_id ps) us of
       Some user \<Rightarrow>
         (Inr (xml_response
            (''<GetUserResponse>\<newline>        '' @ user_to_xml user @
             ''\<newline>    </GetUserResponse>'')), d)
     | None \<Rightarrow>
         (Inr (xml_response
            (''<GetUserResponse>\<newline>        <error>User not found</error>'' @
             ''\<newline>    </GetUserResponse>'')), d))"
  using assms by (simp add: soap_endpoint_def read_users_def)

lemma soap_create:
  assumes "parse_soap_request b = Inr (Some (''CreateUser'', ps))" and "contents d = Stored us"
  shows "soap_endpoint d b =
    (case new_User (max_default (map user_id us) 0 + 1) (str_opt (p_name ps)) (p_email ps) (p_age ps) of
       Inl e \<Rightarrow> (Inl e, d)
     | Inr new_user \<Rightarrow>
         (Inr (xml_response
            (''<CreateUserResponse>\<newline>        <success>true</success>'' @
             ''\<newline>        '' @ user_to_xml new_user @
             ''\<newline>    </CreateUserResponse>'')),
          write_users (us @ [new_user]) d))"
  using assms by (simp add: soap_endpoint_def read_users_def)

lemma soap_update:
  assumes "parse_soap_request b = Inr (Some (''UpdateUser'', ps))" and "contents d = Stored us"
  shows "soap_endpoint d b =
    (case update_loop (p_id ps) ps us of
       (users', Some updated_user) \<Rightarrow>
         (Inr (xml_response
            (''<UpdateUserResponse>\<newline>        <success>true</success>'' @
             ''\<newline>        <message>User updated successfully</message>'' @
             ''\<newline>        '' @ user_to_xml updated_user @
             ''\<newline>    </UpdateUserResponse>'')),
          write_users users' d)
     | (users', None) \<Rightarrow>
         (Inr (xml_response
            (''<UpdateUserResponse>\<newline>        <success>false</success>'' @
             ''\<newline>        <error>User not found</error>'' @
             ''\<newline>    </UpdateUserResponse>'')), d))"
  using assms by (simp add: soap_endpoint_def read_users_def split: prod.splits option.splits)

lemma soap_delete:
  assumes "parse_soap_request b = Inr (Some (''DeleteUser'', ps))" and "contents d = Stored us"
  shows "soap_endpoint d b =
    (Inr (xml_response
       (''<DeleteUserResponse>\<newline>        <success>true</success>'' @
        ''\<newline>        <message>User deleted successfully</message>'' @
        ''\<newline>    </DeleteUserResponse>'')),
     write_users (filter (\<lambda>u. Some (user_id u) \<noteq> p_id ps) us) d)"
  using assms by (simp add: soap_endpoint_def read_users_def)

lemma soap_get_all:
  assumes "parse_soap_request b = Inr (Some (''GetAllUsers'', ps))" and "contents d = Stored us"
  shows "soap_endpoint d b =
    (Inr (xml_response
       (''<GetAllUsersResponse>\<newline>        '' @ join ''\<newline>        '' (map user_to_xml us) @
        ''\<newline>    </GetAllUsersResponse>'')), d)"
  using assms by (simp add: soap_endpoint_def read_users_def)

lemma soap_unknown:
  assumes "parse_soap_request b = Inr soap_data"
    and "map_option fst soap_data \<notin>
     {Some ''GetAllUsers'', Some ''GetUser'', Some ''CreateUser'', Some ''UpdateUser'', Some ''DeleteUser''}"
  shows "soap_endpoint d b =
    (Inr (xml_response
       (''<Error>\<newline>        <message>Unknown operation</message>'' @
        ''\<newline>    </Error>'')), d)"
  using assms by (simp add: soap_endpoint_def)

lemma soap_parse_raises:
  assumes "parse_soap_request b = Inl e"
  shows "soap_endpoint d b = (Inl e, d)"
  using assms by (simp add: soap_endpoint_def)


lemma parse_cases:
  obtains (raises) e where "parse_soap_request b = Inl e"
    | (none) "parse_soap_request b = Inr None"
    | (getall) ps where "parse_soap_request b = Inr (Some (''GetAllUsers'', ps))"
    | (get) ps where "parse_soap_request b = Inr (Some (''GetUser'', ps))"
    | (create) ps where "parse_soap_request b = Inr (Some (''CreateUser'', ps))"
    | (update) ps where "parse_soap_request b = Inr (Some (''UpdateUser'', ps))"
    | (delete) ps where "parse_soap_request b = Inr (Some (''DeleteUser'', ps))"
    | (other) op_name ps where "parse_soap_request b = Inr (Some (op_name, ps))"
        "op_name \<notin> {''GetAllUsers'', ''GetUser'', ''CreateUser'', ''UpdateUser'', ''DeleteUser''}"
proof (cases "parse_soap_request b")
  case (Inl e)
  then show ?thesis by (rule raises)
next
  case (Inr r)
  show ?thesis
  proof (cases r)
    case None
    with Inr have "parse_soap_request b = Inr None" by simp
    then show ?thesis by (rule none)
  next
    case (Some q)
    obtain op_name ps where q: "q = (op_name, ps)" by (cases q)
    with Inr Some have p: "parse_soap_request b = Inr (Some (op_name, ps))" by simp
    show ?thesis
    proof (cases "op_name \<in> {''GetAllUsers'', ''GetUser'', ''CreateUser'', ''UpdateUser'', ''DeleteUser''}")
      case True
      then consider "op_name = ''GetAllUsers''" | "op_name = ''GetUser''" | "op_name = ''CreateUser''"
        | "op_name = ''UpdateUser''" | "op_name = ''DeleteUser''"
        by blast
      then show ?thesis
      proof cases
        case 1
        with p have "parse_soap_request b = Inr (Some (''GetAllUsers'', ps))" by simp
        then show ?thesis by (rule getall)
      next
        case 2
        with p have "parse_soap_request b = Inr (Some (''GetUser'', ps))" by simp
        then show ?thesis by (rule get)
      next
        case 3
        with p have "parse_soap_request b = Inr (Some (''CreateUser'', ps))" by simp
        then show ?thesis by (rule create)
      next
        case 4
        with p have "parse_soap_request b = Inr (Some (''UpdateUser'', ps))" by simp
        then show ?thesis by (rule update)
      next
        case 5
        with p have "parse_soap_request b = Inr (Some (''DeleteUser'', ps))" by simp
        then show ?thesis by (rule delete)
      qed
    next
      case False
      with p show ?thesis by (rule other)
    qed
  qed
qed

lemma update_loop_ids: "map user_id (fst (update_loop uid ps us)) = map user_id us"
  by (induction us) (auto simp: assign_fields_def Let_def split: prod.splits option.splits)

section \<open>Creation\<close>

lemma max_default_next_id: "max_default (map user_id us) 0 + 1 = spec_next_id us"
proof (cases "us = []")
  case True
  then show ?thesis by (simp add: spec_next_id_def max_default_def)
next
  case False
  then show ?thesis by (simp add: spec_next_id_def max_default_Max)
qed

lemma next_id_greater:
  assumes "u \<in> set us"
  shows "user_id u < spec_next_id us"
proof -
  from assms have "user_id u \<le> Max (user_id ` set us)" and "us \<noteq> []"
    by auto
  then show ?thesis by (simp add: spec_next_id_def)
qed

lemma create_result:
  assumes "parse_soap_request b = Inr (Some (''CreateUser'', ps))" and "contents d = Stored us"
    and "p_email ps = Some e" and "p_age ps = Some a"
  shows "soap_endpoint d b =
     (Inr (xml_response
        (''<CreateUserResponse>\<newline>        <success>true</success>'' @
         ''\<newline>        '' @
         user_to_xml \<lparr>user_id = spec_next_id us, user_name = str_opt (p_name ps),
           user_email = e, user_age = a\<rparr> @
         ''\<newline>    </CreateUserResponse>'')),
      write_users (us @ [\<lparr>user_id = spec_next_id us, user_name = str_opt (p_name ps),
        user_email = e, user_age = a\<rparr>]) d)"
  using assms by (simp add: soap_create new_User_def max_default_next_id)

lemma serve_creates:
  assumes "\<forall>b\<in>set bs. valid_create b" and "contents d = Stored us"
  shows "\<exists>new. contents (serve d bs) = Stored (us @ new) \<and> length new = length bs \<and>
     sorted_wrt (<) (map user_id new) \<and> (\<forall>u\<in>set us. \<forall>n\<in>set new. user_id u < user_id n)"
  using assms
proof (induction bs arbitrary: d us)
  case Nil
  then show ?case by simp
next
  case (Cons b bs)
  from Cons.prems(1) obtain ps e a where p: "parse_soap_request b = Inr (Some (''CreateUser'', ps))"
    "p_email ps = Some e" "p_age ps = Some a"
    by (auto simp: valid_create_def split: sum.splits option.splits prod.splits)
  define u where "u = \<lparr>user_id = spec_next_id us, user_name = str_opt (p_name ps),
    user_email = e, user_age = a\<rparr>"
  have step: "contents (snd (soap_endpoint d b)) = Stored (us @ [u])"
    using create_result[OF p(1) Cons.prems(2) p(2,3)] by (simp add: write_users_def u_def)
  from Cons.IH[OF _ step] Cons.prems(1)
  obtain new where new: "contents (serve (snd (soap_endpoint d b)) bs) = Stored ((us @ [u]) @ new)"
    "length new = length bs" "sorted_wrt (<) (map user_id new)"
    "\<forall>x\<in>set (us @ [u]). \<forall>n\<in>set new. user_id x < user_id n"
    by auto
  have gt: "\<forall>x\<in>set us. user_id x < user_id u"
    by (simp add: u_def next_id_greater)
  from new gt have "contents (serve d (b # bs)) = Stored (us @ (u # new)) \<and>
     length (u # new) = length (b # bs) \<and> sorted_wrt (<) (map user_id (u # new)) \<and>
     (\<forall>x\<in>set us. \<forall>n\<in>set (u # new). user_id x < user_id n)"
    by auto
  then show ?case by blast
qed

text \<open>
  C1. A create request that the handler accepts appends one record whose id is one
  more than the largest id in the store, or 1 when the store is empty; and after any
  sequence of valid create requests the records appended, in the order of the
  requests, have strictly increasing ids, all above the ids that were there before.
\<close>

theorem create_assigns_next_id:
  assumes "contents d = Stored us"
  shows "(\<forall>b ps e a.
            parse_soap_request b = Inr (Some (''CreateUser'', ps)) \<and> p_email ps = Some e \<and> p_age ps = Some a \<longrightarrow>
            (\<exists>r new_user. soap_endpoint d b = (Inr r, write_users (us @ [new_user]) d) \<and>
               user_id new_user = (if us = [] then 1 else Max (user_id ` set us) + 1))) \<and>
         ((\<forall>b\<in>set bs. valid_create b) \<longrightarrow>
            (\<exists>new. contents (serve d bs) = Stored (us @ new) \<and> length new = length bs \<and>
               sorted_wrt (<) (map user_id new) \<and>
               (\<forall>u\<in>set us. \<forall>n\<in>set new. user_id u < user_id n)))"
proof (intro conjI allI impI)
  fix b ps e a
  assume h: "parse_soap_request b = Inr (Some (''CreateUser'', ps)) \<and> p_email ps = Some e \<and> p_age ps = Some a"
  have "user_id \<lparr>user_id = spec_next_id us, user_name = str_opt (p_name ps),
      user_email = e, user_age = a\<rparr> = (if us = [] then 1 else Max (user_id ` set us) + 1)"
    by (simp add: spec_next_id_def)
  with create_result[OF _ assms, of b ps e a] h
  show "\<exists>r new_user. soap_endpoint d b = (Inr r, write_users (us @ [new_user]) d) \<and>
     user_id new_user = (if us = [] then 1 else Max (user_id ` set us) + 1)"
    by blast
next
  assume "\<forall>b\<in>set bs. valid_create b"
  then show "\<exists>new. contents (serve d bs) = Stored (us @ new) \<and> length new = length bs \<and>
     sorted_wrt (<) (map user_id new) \<and> (\<forall>u\<in>set us. \<forall>n\<in>set new. user_id u < user_id n)"
    using assms by (rule serve_creates)
qed

theorem create_assigns_next_id_witness:
  "contents \<lparr>contents = Stored [\<lparr>user_id = 4, user_name = ''Eva'', user_email = ''e@x.com'', user_age = 41\<rparr>], writes = 0\<rparr>
     = Stored [\<lparr>user_id = 4, user_name = ''Eva'', user_email = ''e@x.com'', user_age = 41\<rparr>] \<and>
   valid_create ''<CreateUserRequest><name>Ana</name><email>a@x.com</email><age>30</age></CreateUserRequest>'' \<and>
   valid_create ''<CreateUserRequest><name>Leo</name><email>l@x.com</email><age>25</age></CreateUserRequest>'' \<and>
   (\<exists>new. contents (serve \<lparr>contents = Stored [\<lparr>user_id = 4, user_name = ''Eva'', user_email = ''e@x.com'', user_age = 41\<rparr>], writes = 0\<rparr>
        [''<CreateUserRequest><name>Ana</name><email>a@x.com</email><age>30</age></CreateUserRequest>'',
         ''<CreateUserRequest><name>Leo</name><email>l@x.com</email><age>25</age></CreateUserRequest>''])
      = Stored ([\<lparr>user_id = 4, user_name = ''Eva'', user_email = ''e@x.com'', user_age = 41\<rparr>] @ new) \<and>
      length new = 2 \<and> sorted_wrt (<) (map user_id new))"
proof -
  have v1: "valid_create ''<CreateUserRequest><name>Ana</name><email>a@x.com</email><age>30</age></CreateUserRequest>''"
    by code_simp
  have v2: "valid_create ''<CreateUserRequest><name>Leo</name><email>l@x.com</email><age>25</age></CreateUserRequest>''"
    by code_simp
  have c: "contents \<lparr>contents = Stored [\<lparr>user_id = 4, user_name = ''Eva'', user_email = ''e@x.com'', user_age = 41\<rparr>], writes = 0\<rparr>
     = Stored [\<lparr>user_id = 4, user_name = ''Eva'', user_email = ''e@x.com'', user_age = 41\<rparr>]"
    by simp
  have vs: "\<forall>b\<in>set [''<CreateUserRequest><name>Ana</name><email>a@x.com</email><age>30</age></CreateUserRequest>'',
           ''<CreateUserRequest><name>Leo</name><email>l@x.com</email><age>25</age></CreateUserRequest>'']. valid_create b"
    using v1 v2 by simp
  from create_assigns_next_id[OF c,
      of "[''<CreateUserRequest><name>Ana</name><email>a@x.com</email><age>30</age></CreateUserRequest>'',
           ''<CreateUserRequest><name>Leo</name><email>l@x.com</email><age>25</age></CreateUserRequest>'']"]
    vs
  obtain new where "contents (serve \<lparr>contents = Stored [\<lparr>user_id = 4, user_name = ''Eva'', user_email = ''e@x.com'', user_age = 41\<rparr>], writes = 0\<rparr>
        [''<CreateUserRequest><name>Ana</name><email>a@x.com</email><age>30</age></CreateUserRequest>'',
         ''<CreateUserRequest><name>Leo</name><email>l@x.com</email><age>25</age></CreateUserRequest>''])
      = Stored ([\<lparr>user_id = 4, user_name = ''Eva'', user_email = ''e@x.com'', user_age = 41\<rparr>] @ new)"
     "length new = length [''<CreateUserRequest><name>Ana</name><email>a@x.com</email><age>30</age></CreateUserRequest>'',
         ''<CreateUserRequest><name>Leo</name><email>l@x.com</email><age>25</age></CreateUserRequest>'']"
     "sorted_wrt (<) (map user_id new)"
    by blast
  then have "\<exists>new. contents (serve \<lparr>contents = Stored [\<lparr>user_id = 4, user_name = ''Eva'', user_email = ''e@x.com'', user_age = 41\<rparr>], writes = 0\<rparr>
        [''<CreateUserRequest><name>Ana</name><email>a@x.com</email><age>30</age></CreateUserRequest>'',
         ''<CreateUserRequest><name>Leo</name><email>l@x.com</email><age>25</age></CreateUserRequest>''])
      = Stored ([\<lparr>user_id = 4, user_name = ''Eva'', user_email = ''e@x.com'', user_age = 41\<rparr>] @ new) \<and>
      length new = 2 \<and> sorted_wrt (<) (map user_id new)"
    by (intro exI[of _ new]) simp
  with v1 v2 c show ?thesis by blast
qed

section \<open>Uniqueness of ids\<close>

lemma distinct_append_new:
  assumes "distinct (map user_id us)"
  shows "distinct (map user_id (us @ [\<lparr>user_id = max_default (map user_id us) 0 + 1, user_name = n, user_email = e, user_age = a\<rparr>]))"
proof -
  have "\<forall>u\<in>set us. user_id u \<noteq> spec_next_id us"
    using next_id_greater by fastforce
  with assms show ?thesis by (auto simp: max_default_next_id)
qed

lemma update_loop_distinct:
  assumes "distinct (map user_id us)"
  shows "distinct (map user_id (fst (update_loop uid ps us)))"
  using assms by (simp add: update_loop_ids)

lemma endpoint_keeps_distinct:
  assumes "contents d = Stored us" and "distinct (map user_id us)"
  shows "\<exists>us'. contents (snd (soap_endpoint d b)) = Stored us' \<and> distinct (map user_id us')"
proof (cases b rule: parse_cases)
  case raises
  then show ?thesis using assms by (simp add: soap_parse_raises)
next
  case none
  then show ?thesis using assms by (simp add: soap_unknown)
next
  case getall
  then show ?thesis using assms by (simp add: soap_get_all)
next
  case get
  then show ?thesis using assms by (simp add: soap_get_user split: option.splits)
next
  case create
  then show ?thesis using assms distinct_append_new[OF assms(2)]
    by (simp add: soap_create new_User_def write_users_def split: option.splits)
next
  case (update ps)
  obtain us' r where u: "update_loop (p_id ps) ps us = (us', r)" by force
  with update_loop_distinct[OF assms(2), of "p_id ps" ps] have "distinct (map user_id us')" by simp
  with update u assms show ?thesis
    by (cases r) (simp_all add: soap_update write_users_def)
next
  case delete
  then show ?thesis using assms by (simp add: soap_delete write_users_def distinct_map_filter)
next
  case other
  then show ?thesis using assms by (simp add: soap_unknown)
qed

text \<open>
  C2. If the ids of the stored collection are pairwise distinct before a request is
  processed, whatever the request (GetAllUsers, GetUser, CreateUser, UpdateUser,
  DeleteUser, or anything else), the data file still holds a collection afterwards
  and its ids are pairwise distinct.
\<close>

theorem ids_stay_distinct:
  assumes "contents d = Stored us" and "distinct (map user_id us)"
  shows "\<exists>us'. contents (snd (soap_endpoint d b)) = Stored us' \<and> distinct (map user_id us')"
  using assms by (rule endpoint_keeps_distinct)

theorem ids_stay_distinct_witness:
  "contents \<lparr>contents = Stored [\<lparr>user_id = 1, user_name = ''Ana'', user_email = ''a@x.com'', user_age = 30\<rparr>,
       \<lparr>user_id = 2, user_name = ''Leo'', user_email = ''l@x.com'', user_age = 25\<rparr>], writes = 0\<rparr>
     = Stored [\<lparr>user_id = 1, user_name = ''Ana'', user_email = ''a@x.com'', user_age = 30\<rparr>,
       \<lparr>user_id = 2, user_name = ''Leo'', user_email = ''l@x.com'', user_age = 25\<rparr>] \<and>
   distinct (map user_id [\<lparr>user_id = 1, user_name = ''Ana'', user_email = ''a@x.com'', user_age = 30\<rparr>,
       \<lparr>user_id = 2, user_name = ''Leo'', user_email = ''l@x.com'', user_age = 25\<rparr>]) \<and>
   (\<exists>us'. contents (snd (soap_endpoint
        \<lparr>contents = Stored [\<lparr>user_id = 1, user_name = ''Ana'', user_email = ''a@x.com'', user_age = 30\<rparr>,
           \<lparr>user_id = 2, user_name = ''Leo'', user_email = ''l@x.com'', user_age = 25\<rparr>], writes = 0\<rparr>
        ''<CreateUserRequest><name>Eva</name><email>e@x.com</email><age>41</age></CreateUserRequest>'')) = Stored us' \<and>
      distinct (map user_id us'))"
proof -
  have c: "contents \<lparr>contents = Stored [\<lparr>user_id = 1, user_name = ''Ana'', user_email = ''a@x.com'', user_age = 30\<rparr>,
       \<lparr>user_id = 2, user_name = ''Leo'', user_email = ''l@x.com'', user_age = 25\<rparr>], writes = 0\<rparr>
     = Stored [\<lparr>user_id = 1, user_name = ''Ana'', user_email = ''a@x.com'', user_age = 30\<rparr>,
       \<lparr>user_id = 2, user_name = ''Leo'', user_email = ''l@x.com'', user_age = 25\<rparr>]"
    by simp
  have dist: "distinct (map user_id [\<lparr>user_id = 1, user_name = ''Ana'', user_email = ''a@x.com'', user_age = 30\<rparr>,
       \<lparr>user_id = 2, user_name = ''Leo'', user_email = ''l@x.com'', user_age = 25\<rparr>])"
    by simp
  from ids_stay_distinct[OF c dist] c dist show ?thesis by blast
qed

section \<open>Creation with absent parameters\<close>

text \<open>
  C3 as stated fails: a create request without email makes the constructor of the
  record raise; no record is created and nothing is written.
\<close>

theorem create_without_email_counterexample:
  "soap_endpoint \<lparr>contents = Stored [], writes = 0\<rparr>
      ''<CreateUserRequest><name>Ana</name><age>30</age></CreateUserRequest>''
    = (Inl ValidationError, \<lparr>contents = Stored [], writes = 0\<rparr>)"
  by code_simp

text \<open>
  C3, amended. For a create request on a readable store: when email or age is absent
  the constructor of the record raises a validation error and the disk is left as it
  was; when only name is absent (email and age supplied) the record is created and
  written with the text \<^verbatim>\<open>None\<close> as its name.
\<close>

theorem create_absent_params:
  assumes "parse_soap_request b = Inr (Some (''CreateUser'', ps))" and "contents d = Stored us"
  shows "(p_email ps = None \<or> p_age ps = None \<longrightarrow> soap_endpoint d b = (Inl ValidationError, d)) \<and>
         (\<forall>e a. p_name ps = None \<and> p_email ps = Some e \<and> p_age ps = Some a \<longrightarrow>
            (\<exists>r. soap_endpoint d b =
               (Inr r, d\<lparr>contents := Stored (us @ [\<lparr>user_id = (if us = [] then 1 else Max (user_id ` set us) + 1),
                    user_name = ''None'', user_email = e, user_age = a\<rparr>]),
                  writes := Suc (writes d)\<rparr>)))"
proof (intro conjI allI impI)
  assume "p_email ps = None \<or> p_age ps = None"
  then show "soap_endpoint d b = (Inl ValidationError, d)"
    using assms by (auto simp: soap_create new_User_def split: option.splits)
next
  fix e a
  assume "p_name ps = None \<and> p_email ps = Some e \<and> p_age ps = Some a"
  then show "\<exists>r. soap_endpoint d b =
       (Inr r, d\<lparr>contents := Stored (us @ [\<lparr>user_id = (if us = [] then 1 else Max (user_id ` set us) + 1),
            user_name = ''None'', user_email = e, user_age = a\<rparr>]),
          writes := Suc (writes d)\<rparr>)"
    using create_result[OF assms(1,2), of e a]
    by (simp add: write_users_def str_opt_def spec_next_id_def)
qed

theorem create_absent_params_witness:
  "parse_soap_request ''<CreateUserRequest><email>a@x.com</email><age>30</age></CreateUserRequest>''
     = Inr (Some (''CreateUser'', \<lparr>p_id = None, p_name = None, p_email = Some ''a@x.com'', p_age = Some 30\<rparr>)) \<and>
   (\<exists>r. soap_endpoint \<lparr>contents = Stored [], writes = 0\<rparr>
        ''<CreateUserRequest><email>a@x.com</email><age>30</age></CreateUserRequest>''
      = (Inr r, \<lparr>contents = Stored [\<lparr>user_id = 1, user_name = ''None'', user_email = ''a@x.com'', user_age = 30\<rparr>],
           writes = 1\<rparr>))"
proof -
  have p: "parse_soap_request ''<CreateUserRequest><email>a@x.com</email><age>30</age></CreateUserRequest>''
     = Inr (Some (''CreateUser'', \<lparr>p_id = None, p_name = None, p_email = Some ''a@x.com'', p_age = Some 30\<rparr>))"
    by code_simp
  have c: "contents \<lparr>contents = Stored [], writes = 0\<rparr> = Stored []"
    by simp
  from create_absent_params[OF p c] have "\<exists>r. soap_endpoint \<lparr>contents = Stored [], writes = 0\<rparr>
        ''<CreateUserRequest><email>a@x.com</email><age>30</age></CreateUserRequest>''
      = (Inr r, \<lparr>contents = Stored [\<lparr>user_id = 1, user_name = ''None'', user_email = ''a@x.com'', user_age = 30\<rparr>],
           writes = 1\<rparr>)"
    by simp
  with p show ?thesis by blast
qed

section \<open>Lookups and deletions\<close>

lemma find_user_no_match:
  assumes "\<forall>u\<in>set us. Some (user_id u) \<noteq> uid"
  shows "find_user uid us = None"
  using assms by (simp add: find_user_def find_None_iff)

lemma update_loop_no_match:
  assumes "\<forall>u\<in>set us. Some (user_id u) \<noteq> uid"
  shows "update_loop uid ps us = (us, None)"
  using assms by (induction us) simp_all

lemma filter_no_match:
  assumes "\<forall>u\<in>set us. Some (user_id u) \<noteq> uid"
  shows "filter (\<lambda>u. Some (user_id u) \<noteq> uid) us = us"
  using assms by (induction us) simp_all

lemma not_found_envelope:
  "status_code (xml_response (''<GetUserResponse>\<newline>        <error>User not found</error>'' @
      ''\<newline>    </GetUserResponse>'')) = 200 \<and>
   contains (content (xml_response (''<GetUserResponse>\<newline>        <error>User not found</error>'' @
      ''\<newline>    </GetUserResponse>''))) ''<error>User not found</error>''"
  by code_simp

lemma get_not_found:
  assumes "parse_soap_request g = Inr (Some (''GetUser'', pg))" and "contents d = Stored us"
    and "\<forall>u\<in>set us. Some (user_id u) \<noteq> p_id pg"
  shows "soap_endpoint d g =
     (Inr (xml_response (''<GetUserResponse>\<newline>        <error>User not found</error>'' @
        ''\<newline>    </GetUserResponse>'')), d)"
  using assms by (simp add: soap_get_user find_user_no_match)

lemma delete_result:
  assumes "parse_soap_request b = Inr (Some (''DeleteUser'', ps))" and "contents d = Stored us"
  shows "soap_endpoint d b =
     (Inr (xml_response (''<DeleteUserResponse>\<newline>        <success>true</success>'' @
        ''\<newline>        <message>User deleted successfully</message>'' @
        ''\<newline>    </DeleteUserResponse>'')),
      d\<lparr>contents := Stored (filter (\<lambda>u. Some (user_id u) \<noteq> p_id ps) us), writes := Suc (writes d)\<rparr>)"
  using assms by (simp add: soap_delete write_users_def)

text \<open>
  C5. On a readable store, a GetUser request whose id matches no record gets the
  status 200 response whose envelope holds the fragment \<^verbatim>\<open><error>User not found</error>\<close>,
  and the disk is untouched; this is so in particular for a GetUser issued right
  after a DeleteUser of the same id.
\<close>

theorem get_user_not_found:
  assumes "parse_soap_request g = Inr (Some (''GetUser'', pg))" and "contents d = Stored us"
  shows "((\<forall>u\<in>set us. Some (user_id u) \<noteq> p_id pg) \<longrightarrow>
            soap_endpoint d g =
              (Inr \<lparr>status_code = 200, media_type = ''text/xml'',
                 content = create_soap_response
                   (''<GetUserResponse>\<newline>        <error>User not found</error>'' @
                    ''\<newline>    </GetUserResponse>'')\<rparr>, d)) \<and>
         (\<forall>del pd. parse_soap_request del = Inr (Some (''DeleteUser'', pd)) \<and> p_id pd = p_id pg \<longrightarrow>
            soap_endpoint (snd (soap_endpoint d del)) g =
              (Inr \<lparr>status_code = 200, media_type = ''text/xml'',
                 content = create_soap_response
                   (''<GetUserResponse>\<newline>        <error>User not found</error>'' @
                    ''\<newline>    </GetUserResponse>'')\<rparr>, snd (soap_endpoint d del))) \<and>
         contains (create_soap_response
                   (''<GetUserResponse>\<newline>        <error>User not found</error>'' @
                    ''\<newline>    </GetUserResponse>'')) ''<error>User not found</error>''"
proof (intro conjI allI impI)
  assume "\<forall>u\<in>set us. Some (user_id u) \<noteq> p_id pg"
  with get_not_found[OF assms]
  show "soap_endpoint d g =
      (Inr \<lparr>status_code = 200, media_type = ''text/xml'',
         content = create_soap_response
           (''<GetUserResponse>\<newline>        <error>User not found</error>'' @
            ''\<newline>    </GetUserResponse>'')\<rparr>, d)"
    by (simp add: xml_response_def)
next
  fix del pd
  assume h: "parse_soap_request del = Inr (Some (''DeleteUser'', pd)) \<and> p_id pd = p_id pg"
  define us' where "us' = filter (\<lambda>u. Some (user_id u) \<noteq> p_id pg) us"
  define d' where "d' = snd (soap_endpoint d del)"
  have c': "contents d' = Stored us'"
    using h delete_result[OF _ assms(2), of del pd] by (simp add: d'_def us'_def)
  have "\<forall>u\<in>set us'. Some (user_id u) \<noteq> p_id pg"
    by (simp add: us'_def)
  with get_not_found[OF assms(1) c']
  show "soap_endpoint (snd (soap_endpoint d del)) g =
      (Inr \<lparr>status_code = 200, media_type = ''text/xml'',
         content = create_soap_response
           (''<GetUserResponse>\<newline>        <error>User not found</error>'' @
            ''\<newline>    </GetUserResponse>'')\<rparr>, snd (soap_endpoint d del))"
    by (simp add: xml_response_def d'_def)
next
  show "contains (create_soap_response
                   (''<GetUserResponse>\<newline>        <error>User not found</error>'' @
                    ''\<newline>    </GetUserResponse>'')) ''<error>User not found</error>''"
    using not_found_envelope by (simp add: xml_response_def)
qed

theorem get_user_not_found_witness:
  "parse_soap_request ''<GetUserRequest><id>1</id></GetUserRequest>''
     = Inr (Some (''GetUser'', \<lparr>p_id = Some 1, p_name = None, p_email = None, p_age = None\<rparr>)) \<and>
   parse_soap_request ''<DeleteUserRequest><id>1</id></DeleteUserRequest>''
     = Inr (Some (''DeleteUser'', \<lparr>p_id = Some 1, p_name = None, p_email = None, p_age = None\<rparr>)) \<and>
   fst (soap_endpoint (snd (soap_endpoint
        \<lparr>contents = Stored [\<lparr>user_id = 1, user_name = ''Ana'', user_email = ''a@x.com'', user_age = 30\<rparr>], writes = 0\<rparr>
        ''<DeleteUserRequest><id>1</id></DeleteUserRequest>''))
      ''<GetUserRequest><id>1</id></GetUserRequest>'')
     = Inr \<lparr>status_code = 200, media_type = ''text/xml'',
         content = create_soap_response
           (''<GetUserResponse>\<newline>        <error>User not found</error>'' @
            ''\<newline>    </GetUserResponse>'')\<rparr>"
proof -
  have g: "parse_soap_request ''<GetUserRequest><id>1</id></GetUserRequest>''
     = Inr (Some (''GetUser'', \<lparr>p_id = Some 1, p_name = None, p_email = None, p_age = None\<rparr>))"
    by code_simp
  have dl: "parse_soap_request ''<DeleteUserRequest><id>1</id></DeleteUserRequest>''
     = Inr (Some (''DeleteUser'', \<lparr>p_id = Some 1, p_name = None, p_email = None, p_age = None\<rparr>))"
    by code_simp
  have c: "contents \<lparr>contents = Stored [\<lparr>user_id = 1, user_name = ''Ana'', user_email = ''a@x.com'', user_age = 30\<rparr>], writes = 0\<rparr>
     = Stored [\<lparr>user_id = 1, user_name = ''Ana'', user_email = ''a@x.com'', user_age = 30\<rparr>]"
    by simp
  have same: "p_id \<lparr>p_id = Some 1, p_name = None, p_email = None, p_age = None\<rparr>
     = p_id \<lparr>p_id = Some (1::int), p_name = None, p_email = None, p_age = None\<rparr>"
    by simp
  from get_user_not_found[OF g c] dl same
  have "soap_endpoint (snd (soap_endpoint
        \<lparr>contents = Stored [\<lparr>user_id = 1, user_name = ''Ana'', user_email = ''a@x.com'', user_age = 30\<rparr>], writes = 0\<rparr>
        ''<DeleteUserRequest><id>1</id></DeleteUserRequest>''))
      ''<GetUserRequest><id>1</id></GetUserRequest>''
     = (Inr \<lparr>status_code = 200, media_type = ''text/xml'',
         content = create_soap_response
           (''<GetUserResponse>\<newline>        <error>User not found</error>'' @
            ''\<newline>    </GetUserResponse>'')\<rparr>,
        snd (soap_endpoint
        \<lparr>contents = Stored [\<lparr>user_id = 1, user_name = ''Ana'', user_email = ''a@x.com'', user_age = 30\<rparr>], writes = 0\<rparr>
        ''<DeleteUserRequest><id>1</id></DeleteUserRequest>''))"
    by blast
  then show ?thesis using g dl by simp
qed

text \<open>
  C6. On a readable store, a DeleteUser request always gets the success response;
  the collection written back is the stored one without the records whose id is the
  one supplied, and the file is rewritten (one more write) even when no record
  matches, in which case the collection written is the one that was there.
\<close>

theorem delete_always_succeeds:
  assumes "parse_soap_request b = Inr (Some (''DeleteUser'', ps))" and "contents d = Stored us"
  shows "soap_endpoint d b =
           (Inr \<lparr>status_code = 200, media_type = ''text/xml'',
              content = create_soap_response
                (''<DeleteUserResponse>\<newline>        <success>true</success>'' @
                 ''\<newline>        <message>User deleted successfully</message>'' @
                 ''\<newline>    </DeleteUserResponse>'')\<rparr>,
            d\<lparr>contents := Stored (filter (\<lambda>u. Some (user_id u) \<noteq> p_id ps) us),
              writes := Suc (writes d)\<rparr>) \<and>
         ((\<forall>u\<in>set us. Some (user_id u) \<noteq> p_id ps) \<longrightarrow>
            filter (\<lambda>u. Some (user_id u) \<noteq> p_id ps) us = us)"
  using delete_result[OF assms] by (simp add: xml_response_def filter_no_match)

theorem delete_always_succeeds_witness:
  "parse_soap_request ''<DeleteUserRequest><id>7</id></DeleteUserRequest>''
     = Inr (Some (''DeleteUser'', \<lparr>p_id = Some 7, p_name = None, p_email = None, p_age = None\<rparr>)) \<and>
   soap_endpoint
        \<lparr>contents = Stored [\<lparr>user_id = 1, user_name = ''Ana'', user_email = ''a@x.com'', user_age = 30\<rparr>], writes = 0\<rparr>
        ''<DeleteUserRequest><id>7</id></DeleteUserRequest>''
     = (Inr \<lparr>status_code = 200, media_type = ''text/xml'',
              content = create_soap_response
                (''<DeleteUserResponse>\<newline>        <success>true</success>'' @
                 ''\<newline>        <message>User deleted successfully</message>'' @
                 ''\<newline>    </DeleteUserResponse>'')\<rparr>,
        \<lparr>contents = Stored [\<lparr>user_id = 1, user_name = ''Ana'', user_email = ''a@x.com'', user_age = 30\<rparr>], writes = 1\<rparr>)"
proof -
  have p: "parse_soap_request ''<DeleteUserRequest><id>7</id></DeleteUserRequest>''
     = Inr (Some (''DeleteUser'', \<lparr>p_id = Some 7, p_name = None, p_email = None, p_age = None\<rparr>))"
    by code_simp
  have c: "contents \<lparr>contents = Stored [\<lparr>user_id = 1, user_name = ''Ana'', user_email = ''a@x.com'', user_age = 30\<rparr>], writes = 0\<rparr>
     = Stored [\<lparr>user_id = 1, user_name = ''Ana'', user_email = ''a@x.com'', user_age = 30\<rparr>]"
    by simp
  from delete_always_succeeds[OF p c] p show ?thesis by simp
qed

section \<open>Reading back what was created\<close>

lemma find_skip_prefix:
  assumes "\<forall>x\<in>set xs. \<not> P x"
  shows "find P (xs @ ys) = find P ys"
  using assms by (induction xs) simp_all

lemma find_user_new:
  assumes "user_id u = spec_next_id us"
  shows "find_user (Some (spec_next_id us)) (us @ [u]) = Some u"
proof -
  have "\<forall>x\<in>set us. Some (user_id x) \<noteq> Some (spec_next_id us)"
    using next_id_greater by fastforce
  then have "find (\<lambda>x. Some (user_id x) = Some (spec_next_id us)) (us @ [u]) =
      find (\<lambda>x. Some (user_id x) = Some (spec_next_id us)) [u]"
    by (rule find_skip_prefix)
  with assms show ?thesis by (simp add: find_user_def)
qed

text \<open>
  C7. A valid create request (name, email and age supplied) on a readable store
  answers with a record of some id \<open>i\<close>; a GetUser request for \<open>i\<close> served right after
  it answers with the record of id \<open>i\<close> and the name, email and age of the create
  request.
\<close>

theorem get_after_create:
  assumes "parse_soap_request c = Inr (Some (''CreateUser'', pc))" and "contents d = Stored us"
    and "p_name pc = Some n" and "p_email pc = Some e" and "p_age pc = Some a"
  shows "\<exists>i. i = (if us = [] then 1 else Max (user_id ` set us) + 1) \<and>
          fst (soap_endpoint d c) =
            Inr (xml_response
              (''<CreateUserResponse>\<newline>        <success>true</success>'' @
               ''\<newline>        '' @
               user_to_xml \<lparr>user_id = i, user_name = n, user_email = e, user_age = a\<rparr> @
               ''\<newline>    </CreateUserResponse>'')) \<and>
          (\<forall>g pg. parse_soap_request g = Inr (Some (''GetUser'', pg)) \<and> p_id pg = Some i \<longrightarrow>
             soap_endpoint (snd (soap_endpoint d c)) g =
               (Inr (xml_response
                  (''<GetUserResponse>\<newline>        '' @
                   user_to_xml \<lparr>user_id = i, user_name = n, user_email = e, user_age = a\<rparr> @
                   ''\<newline>    </GetUserResponse>'')),
                snd (soap_endpoint d c)))"
proof -
  define u where "u = \<lparr>user_id = spec_next_id us, user_name = n, user_email = e, user_age = a\<rparr>"
  define d' where "d' = snd (soap_endpoint d c)"
  have res: "soap_endpoint d c =
     (Inr (xml_response
        (''<CreateUserResponse>\<newline>        <success>true</success>'' @
         ''\<newline>        '' @ user_to_xml u @ ''\<newline>    </CreateUserResponse>'')),
      write_users (us @ [u]) d)"
    using create_result[OF assms(1,2,4,5)] assms(3) by (simp add: u_def str_opt_def)
  then have c': "contents d' = Stored (us @ [u])"
    by (simp add: d'_def write_users_def)
  have found: "find_user (Some (spec_next_id us)) (us @ [u]) = Some u"
    by (rule find_user_new) (simp add: u_def)
  have "\<forall>g pg. parse_soap_request g = Inr (Some (''GetUser'', pg)) \<and> p_id pg = Some (spec_next_id us) \<longrightarrow>
     soap_endpoint d' g =
       (Inr (xml_response (''<GetUserResponse>\<newline>        '' @ user_to_xml u @
          ''\<newline>    </GetUserResponse>'')), d')"
    using c' found by (auto simp: soap_get_user)
  with res show ?thesis
    unfolding d'_def u_def by (intro exI[of _ "spec_next_id us"]) (simp add: spec_next_id_def)
qed

theorem get_after_create_witness:
  "parse_soap_request ''<CreateUserRequest><name>Ana</name><email>a@x.com</email><age>30</age></CreateUserRequest>''
     = Inr (Some (''CreateUser'', \<lparr>p_id = None, p_name = Some ''Ana'', p_email = Some ''a@x.com'', p_age = Some 30\<rparr>)) \<and>
   parse_soap_request ''<GetUserRequest><id>1</id></GetUserRequest>''
     = Inr (Some (''GetUser'', \<lparr>p_id = Some 1, p_name = None, p_email = None, p_age = None\<rparr>)) \<and>
   fst (soap_endpoint (snd (soap_endpoint \<lparr>contents = Stored [], writes = 0\<rparr>
           ''<CreateUserRequest><name>Ana</name><email>a@x.com</email><age>30</age></CreateUserRequest>''))
        ''<GetUserRequest><id>1</id></GetUserRequest>'') =
     Inr (xml_response
        (''<GetUserResponse>\<newline>        '' @
         user_to_xml \<lparr>user_id = 1, user_name = ''Ana'', user_email = ''a@x.com'', user_age = 30\<rparr> @
         ''\<newline>    </GetUserResponse>''))"
proof -
  have p: "parse_soap_request ''<CreateUserRequest><name>Ana</name><email>a@x.com</email><age>30</age></CreateUserRequest>''
     = Inr (Some (''CreateUser'', \<lparr>p_id = None, p_name = Some ''Ana'', p_email = Some ''a@x.com'', p_age = Some 30\<rparr>))"
    by code_simp
  have g: "parse_soap_request ''<GetUserRequest><id>1</id></GetUserRequest>''
     = Inr (Some (''GetUser'', \<lparr>p_id = Some 1, p_name = None, p_email = None, p_age = None\<rparr>))"
    by code_simp
  have c: "contents \<lparr>contents = Stored [], writes = 0\<rparr> = Stored []"
    by simp
  from get_after_create[OF p c, of "''Ana''" "''a@x.com''" 30]
  have "\<forall>g pg. parse_soap_request g = Inr (Some (''GetUser'', pg)) \<and> p_id pg = Some 1 \<longrightarrow>
     soap_endpoint (snd (soap_endpoint \<lparr>contents = Stored [], writes = 0\<rparr>
           ''<CreateUserRequest><name>Ana</name><email>a@x.com</email><age>30</age></CreateUserRequest>'')) g =
       (Inr (xml_response
          (''<GetUserResponse>\<newline>        '' @
           user_to_xml \<lparr>user_id = 1, user_name = ''Ana'', user_email = ''a@x.com'', user_age = 30\<rparr> @
           ''\<newline>    </GetUserResponse>'')),
        snd (soap_endpoint \<lparr>contents = Stored [], writes = 0\<rparr>
           ''<CreateUserRequest><name>Ana</name><email>a@x.com</email><age>30</age></CreateUserRequest>''))"
    by simp
  with g have "soap_endpoint (snd (soap_endpoint \<lparr>contents = Stored [], writes = 0\<rparr>
           ''<CreateUserRequest><name>Ana</name><email>a@x.com</email><age>30</age></CreateUserRequest>''))
        ''<GetUserRequest><id>1</id></GetUserRequest>'' =
       (Inr (xml_response
          (''<GetUserResponse>\<newline>        '' @
           user_to_xml \<lparr>user_id = 1, user_name = ''Ana'', user_email = ''a@x.com'', user_age = 30\<rparr> @
           ''\<newline>    </GetUserResponse>'')),
        snd (soap_endpoint \<lparr>contents = Stored [], writes = 0\<rparr>
           ''<CreateUserRequest><name>Ana</name><email>a@x.com</email><age>30</age></CreateUserRequest>''))"
    by (metis params.select_convs(1))
  with p g show ?thesis by simp
qed

section \<open>Requests without an id\<close>

lemma update_not_found:
  assumes "parse_soap_request b = Inr (Some (''UpdateUser'', ps))" and "contents d = Stored us"
    and "\<forall>u\<in>set us. Some (user_id u) \<noteq> p_id ps"
  shows "soap_endpoint d b =
     (Inr (xml_response (''<UpdateUserResponse>\<newline>        <success>false</success>'' @
        ''\<newline>        <error>User not found</error>'' @
        ''\<newline>    </UpdateUserResponse>'')), d)"
  using assms by (simp add: soap_update update_loop_no_match)

text \<open>
  C10. On a readable store, a GetUser, UpdateUser or DeleteUser request whose
  payload yields no id behaves as a request of the same operation whose id matches
  no stored record: GetUser answers with the not-found fragment, UpdateUser answers
  with success false and does not write, DeleteUser writes the collection back
  unchanged and reports success.
\<close>

theorem absent_id_matches_nothing:
  assumes "parse_soap_request b = Inr (Some (op_name, ps))" and "p_id ps = None"
    and "contents d = Stored us"
  shows "(op_name = ''GetUser'' \<longrightarrow>
            soap_endpoint d b =
              (Inr (xml_response (''<GetUserResponse>\<newline>        <error>User not found</error>'' @
                 ''\<newline>    </GetUserResponse>'')), d)) \<and>
         (op_name = ''UpdateUser'' \<longrightarrow>
            soap_endpoint d b =
              (Inr (xml_response (''<UpdateUserResponse>\<newline>        <success>false</success>'' @
                 ''\<newline>        <error>User not found</error>'' @
                 ''\<newline>    </UpdateUserResponse>'')), d)) \<and>
         (op_name = ''DeleteUser'' \<longrightarrow>
            soap_endpoint d b =
              (Inr (xml_response (''<DeleteUserResponse>\<newline>        <success>true</success>'' @
                 ''\<newline>        <message>User deleted successfully</message>'' @
                 ''\<newline>    </DeleteUserResponse>'')),
               d\<lparr>contents := Stored us, writes := Suc (writes d)\<rparr>)) \<and>
         (\<forall>b' ps' j. op_name \<in> {''GetUser'', ''UpdateUser'', ''DeleteUser''} \<and>
            parse_soap_request b' = Inr (Some (op_name, ps')) \<and> p_id ps' = Some j \<and>
            j \<notin> user_id ` set us \<longrightarrow>
            soap_endpoint d b' = soap_endpoint d b)"
proof -
  have none: "\<forall>u\<in>set us. Some (user_id u) \<noteq> p_id ps"
    using assms(2) by simp
  have get: "op_name = ''GetUser'' \<longrightarrow>
      soap_endpoint d b =
        (Inr (xml_response (''<GetUserResponse>\<newline>        <error>User not found</error>'' @
           ''\<newline>    </GetUserResponse>'')), d)"
    using get_not_found[OF _ assms(3) none, of b] assms(1) by simp
  have upd: "op_name = ''UpdateUser'' \<longrightarrow>
      soap_endpoint d b =
        (Inr (xml_response (''<UpdateUserResponse>\<newline>        <success>false</success>'' @
           ''\<newline>        <error>User not found</error>'' @
           ''\<newline>    </UpdateUserResponse>'')), d)"
    using update_not_found[OF _ assms(3) none, of b] assms(1) by simp
  have del: "op_name = ''DeleteUser'' \<longrightarrow>
      soap_endpoint d b =
        (Inr (xml_response (''<DeleteUserResponse>\<newline>        <success>true</success>'' @
           ''\<newline>        <message>User deleted successfully</message>'' @
           ''\<newline>    </DeleteUserResponse>'')),
         d\<lparr>contents := Stored us, writes := Suc (writes d)\<rparr>)"
    using delete_result[OF _ assms(3), of b ps] assms(1) filter_no_match[OF none] by simp
  have same: "\<forall>b' ps' j. op_name \<in> {''GetUser'', ''UpdateUser'', ''DeleteUser''} \<and>
      parse_soap_request b' = Inr (Some (op_name, ps')) \<and> p_id ps' = Some j \<and>
      j \<notin> user_id ` set us \<longrightarrow>
      soap_endpoint d b' = soap_endpoint d b"
  proof (intro allI impI)
    fix b' ps' j
    assume h: "op_name \<in> {''GetUser'', ''UpdateUser'', ''DeleteUser''} \<and>
      parse_soap_request b' = Inr (Some (op_name, ps')) \<and> p_id ps' = Some j \<and>
      j \<notin> user_id ` set us"
    then have none': "\<forall>u\<in>set us. Some (user_id u) \<noteq> p_id ps'"
      by auto
    from h consider "op_name = ''GetUser''" | "op_name = ''UpdateUser''" | "op_name = ''DeleteUser''"
      by blast
    then show "soap_endpoint d b' = soap_endpoint d b"
    proof cases
      case 1
      with get get_not_found[OF _ assms(3) none', of b'] h show ?thesis by simp
    next
      case 2
      with upd update_not_found[OF _ assms(3) none', of b'] h show ?thesis by simp
    next
      case 3
      with del delete_result[OF _ assms(3), of b' ps'] h filter_no_match[OF none'] show ?thesis
        by simp
    qed
  qed
  from get upd del same show ?thesis by blast
qed

theorem absent_id_matches_nothing_witness:
  "parse_soap_request ''<UpdateUserRequest><id>abc</id><name>Bo</name></UpdateUserRequest>''
     = Inr (Some (''UpdateUser'', \<lparr>p_id = None, p_name = Some ''Bo'', p_email = None, p_age = None\<rparr>)) \<and>
   soap_endpoint
       \<lparr>contents = Stored [\<lparr>user_id = 1, user_name = ''Ana'', user_email = ''a@x.com'', user_age = 30\<rparr>], writes = 3\<rparr>
       ''<UpdateUserRequest><id>abc</id><name>Bo</name></UpdateUserRequest>''
     = (Inr (xml_response (''<UpdateUserResponse>\<newline>        <success>false</success>'' @
          ''\<newline>        <error>User not found</error>'' @
          ''\<newline>    </UpdateUserResponse>'')),
        \<lparr>contents = Stored [\<lparr>user_id = 1, user_name = ''Ana'', user_email = ''a@x.com'', user_age = 30\<rparr>], writes = 3\<rparr>)"
proof -
  have p: "parse_soap_request ''<UpdateUserRequest><id>abc</id><name>Bo</name></UpdateUserRequest>''
     = Inr (Some (''UpdateUser'', \<lparr>p_id = None, p_name = Some ''Bo'', p_email = None, p_age = None\<rparr>))"
    by code_simp
  have i: "p_id \<lparr>p_id = None, p_name = Some ''Bo'', p_email = None, p_age = None\<rparr> = None"
    by simp
  have c: "contents \<lparr>contents = Stored [\<lparr>user_id = 1, user_name = ''Ana'', user_email = ''a@x.com'', user_age = 30\<rparr>], writes = 3\<rparr>
     = Stored [\<lparr>user_id = 1, user_name = ''Ana'', user_email = ''a@x.com'', user_age = 30\<rparr>]"
    by simp
  from absent_id_matches_nothing[OF p i c] p show ?thesis by simp
qed

section \<open>Updates\<close>

lemma update_loop_found:
  assumes "\<exists>u\<in>set us. Some (user_id u) = uid"
  shows "\<exists>k. k < length us \<and> Some (user_id (us ! k)) = uid \<and>
     (\<forall>j<k. Some (user_id (us ! j)) \<noteq> uid) \<and>
     update_loop uid ps us = (us[k := assign_fields ps (us ! k)], Some (assign_fields ps (us ! k)))"
  using assms
proof (induction us)
  case Nil
  then show ?case by simp
next
  case (Cons u us)
  show ?case
  proof (cases "Some (user_id u) = uid")
    case True
    then have "0 < length (u # us) \<and> Some (user_id ((u # us) ! 0)) = uid \<and>
       (\<forall>j<0. Some (user_id ((u # us) ! j)) \<noteq> uid) \<and>
       update_loop uid ps (u # us) =
         ((u # us)[0 := assign_fields ps ((u # us) ! 0)], Some (assign_fields ps ((u # us) ! 0)))"
      by (simp add: Let_def)
    then show ?thesis by blast
  next
    case False
    with Cons.prems have "\<exists>x\<in>set us. Some (user_id x) = uid" by auto
    from Cons.IH[OF this] obtain k where k: "k < length us" "Some (user_id (us ! k)) = uid"
      "\<forall>j<k. Some (user_id (us ! j)) \<noteq> uid"
      "update_loop uid ps us = (us[k := assign_fields ps (us ! k)], Some (assign_fields ps (us ! k)))"
      by blast
    have "\<forall>j<Suc k. Some (user_id ((u # us) ! j)) \<noteq> uid"
      using False k(3) by (auto simp: less_Suc_eq_0_disj)
    with False k have "Suc k < length (u # us) \<and> Some (user_id ((u # us) ! Suc k)) = uid \<and>
       (\<forall>j<Suc k. Some (user_id ((u # us) ! j)) \<noteq> uid) \<and>
       update_loop uid ps (u # us) =
         ((u # us)[Suc k := assign_fields ps ((u # us) ! Suc k)],
          Some (assign_fields ps ((u # us) ! Suc k)))"
      by simp
    then show ?thesis by blast
  qed
qed

lemma assign_fields_sel:
  "user_id (assign_fields ps u) = user_id u"
  "user_name (assign_fields ps u) = (case p_name ps of None \<Rightarrow> user_name u | Some n \<Rightarrow> n)"
  "user_email (assign_fields ps u) = (case p_email ps of None \<Rightarrow> user_email u | Some e \<Rightarrow> e)"
  "user_age (assign_fields ps u) = (case p_age ps of None \<Rightarrow> user_age u | Some a \<Rightarrow> a)"
  by (simp_all add: assign_fields_def Let_def split: option.splits)

text \<open>
  C4. On a readable store, an UpdateUser request whose id matches a stored record
  changes the first matching record only, at its place in the list, and only in the
  fields the request supplies: its id is kept, and each of name, email and age takes
  the supplied value or keeps its old one. Every other record is unchanged, the
  collection is written back once, and the response holds the updated record.
\<close>

theorem update_overwrites_supplied:
  assumes "parse_soap_request b = Inr (Some (''UpdateUser'', ps))" and "contents d = Stored us"
    and "\<exists>u\<in>set us. Some (user_id u) = p_id ps"
  shows "\<exists>k u'. k < length us \<and> Some (user_id (us ! k)) = p_id ps \<and>
           (\<forall>j<k. Some (user_id (us ! j)) \<noteq> p_id ps) \<and>
           user_id u' = user_id (us ! k) \<and>
           user_name u' = (case p_name ps of None \<Rightarrow> user_name (us ! k) | Some n \<Rightarrow> n) \<and>
           user_email u' = (case p_email ps of None \<Rightarrow> user_email (us ! k) | Some e \<Rightarrow> e) \<and>
           user_age u' = (case p_age ps of None \<Rightarrow> user_age (us ! k) | Some a \<Rightarrow> a) \<and>
           soap_endpoint d b =
             (Inr (xml_response
                (''<UpdateUserResponse>\<newline>        <success>true</success>'' @
                 ''\<newline>        <message>User updated successfully</message>'' @
                 ''\<newline>        '' @ user_to_xml u' @
                 ''\<newline>    </UpdateUserResponse>'')),
              d\<lparr>contents := Stored (us[k := u']), writes := Suc (writes d)\<rparr>) \<and>
           length (us[k := u']) = length us \<and>
           (\<forall>j<length us. j \<noteq> k \<longrightarrow> us[k := u'] ! j = us ! j)"
proof -
  from update_loop_found[OF assms(3), of ps] obtain k where k: "k < length us"
    "Some (user_id (us ! k)) = p_id ps" "\<forall>j<k. Some (user_id (us ! j)) \<noteq> p_id ps"
    "update_loop (p_id ps) ps us =
       (us[k := assign_fields ps (us ! k)], Some (assign_fields ps (us ! k)))"
    by blast
  define u' where "u' = assign_fields ps (us ! k)"
  have res: "soap_endpoint d b =
     (Inr (xml_response
        (''<UpdateUserResponse>\<newline>        <success>true</success>'' @
         ''\<newline>        <message>User updated successfully</message>'' @
         ''\<newline>        '' @ user_to_xml u' @
         ''\<newline>    </UpdateUserResponse>'')),
      d\<lparr>contents := Stored (us[k := u']), writes := Suc (writes d)\<rparr>)"
    using assms(1,2) k(4) by (simp add: soap_update write_users_def u'_def)
  have sel: "user_id u' = user_id (us ! k)"
    "user_name u' = (case p_name ps of None \<Rightarrow> user_name (us ! k) | Some n \<Rightarrow> n)"
    "user_email u' = (case p_email ps of None \<Rightarrow> user_email (us ! k) | Some e \<Rightarrow> e)"
    "user_age u' = (case p_age ps of None \<Rightarrow> user_age (us ! k) | Some a \<Rightarrow> a)"
    by (simp_all add: u'_def assign_fields_sel)
  have frame: "length (us[k := u']) = length us"
    "\<forall>j<length us. j \<noteq> k \<longrightarrow> us[k := u'] ! j = us ! j"
    by simp_all
  from k(1-3) sel res frame show ?thesis by blast
qed

theorem update_overwrites_supplied_witness:
  "parse_soap_request ''<UpdateUserRequest><id>2</id><name>Bo</name></UpdateUserRequest>''
     = Inr (Some (''UpdateUser'', \<lparr>p_id = Some 2, p_name = Some ''Bo'', p_email = None, p_age = None\<rparr>)) \<and>
   (\<exists>k u'. k < length [\<lparr>user_id = 1, user_name = ''Ana'', user_email = ''a@x.com'', user_age = 30\<rparr>,
         \<lparr>user_id = 2, user_name = ''Leo'', user_email = ''l@x.com'', user_age = 25\<rparr>] \<and>
      user_name u' = ''Bo'' \<and>
      snd (soap_endpoint
        \<lparr>contents = Stored [\<lparr>user_id = 1, user_name = ''Ana'', user_email = ''a@x.com'', user_age = 30\<rparr>,
           \<lparr>user_id = 2, user_name = ''Leo'', user_email = ''l@x.com'', user_age = 25\<rparr>], writes = 0\<rparr>
        ''<UpdateUserRequest><id>2</id><name>Bo</name></UpdateUserRequest>'')
      = \<lparr>contents = Stored ([\<lparr>user_id = 1, user_name = ''Ana'', user_email = ''a@x.com'', user_age = 30\<rparr>,
           \<lparr>user_id = 2, user_name = ''Leo'', user_email = ''l@x.com'', user_age = 25\<rparr>][k := u']), writes = 1\<rparr>)"
proof -
  have p: "parse_soap_request ''<UpdateUserRequest><id>2</id><name>Bo</name></UpdateUserRequest>''
     = Inr (Some (''UpdateUser'', \<lparr>p_id = Some 2, p_name = Some ''Bo'', p_email = None, p_age = None\<rparr>))"
    by code_simp
  have c: "contents \<lparr>contents = Stored [\<lparr>user_id = 1, user_name = ''Ana'', user_email = ''a@x.com'', user_age = 30\<rparr>,
           \<lparr>user_id = 2, user_name = ''Leo'', user_email = ''l@x.com'', user_age = 25\<rparr>], writes = 0\<rparr>
     = Stored [\<lparr>user_id = 1, user_name = ''Ana'', user_email = ''a@x.com'', user_age = 30\<rparr>,
           \<lparr>user_id = 2, user_name = ''Leo'', user_email = ''l@x.com'', user_age = 25\<rparr>]"
    by simp
  have m: "\<exists>u\<in>set [\<lparr>user_id = 1, user_name = ''Ana'', user_email = ''a@x.com'', user_age = 30\<rparr>,
           \<lparr>user_id = 2, user_name = ''Leo'', user_email = ''l@x.com'', user_age = 25\<rparr>].
       Some (user_id u) = p_id \<lparr>p_id = Some 2, p_name = Some ''Bo'', p_email = None, p_age = None\<rparr>"
    by simp
  from update_overwrites_supplied[OF p c m]
  obtain k u' where "k < length [\<lparr>user_id = 1, user_name = ''Ana'', user_email = ''a@x.com'', user_age = 30\<rparr>,
         \<lparr>user_id = 2, user_name = ''Leo'', user_email = ''l@x.com'', user_age = 25\<rparr>]"
    "user_name u' = (case p_name \<lparr>p_id = Some 2, p_name = Some ''Bo'', p_email = None, p_age = None\<rparr> of
        None \<Rightarrow> user_name ([\<lparr>user_id = 1, user_name = ''Ana'', user_email = ''a@x.com'', user_age = 30\<rparr>,
         \<lparr>user_id = 2, user_name = ''Leo'', user_email = ''l@x.com'', user_age = 25\<rparr>] ! k) | Some n \<Rightarrow> n)"
    "soap_endpoint
        \<lparr>contents = Stored [\<lparr>user_id = 1, user_name = ''Ana'', user_email = ''a@x.com'', user_age = 30\<rparr>,
           \<lparr>user_id = 2, user_name = ''Leo'', user_email = ''l@x.com'', user_age = 25\<rparr>], writes = 0\<rparr>
        ''<UpdateUserRequest><id>2</id><name>Bo</name></UpdateUserRequest>'' =
     (Inr (xml_response
        (''<UpdateUserResponse>\<newline>        <success>true</success>'' @
         ''\<newline>        <message>User updated successfully</message>'' @
         ''\<newline>        '' @ user_to_xml u' @
         ''\<newline>    </UpdateUserResponse>'')),
      \<lparr>contents = Stored [\<lparr>user_id = 1, user_name = ''Ana'', user_email = ''a@x.com'', user_age = 30\<rparr>,
           \<lparr>user_id = 2, user_name = ''Leo'', user_email = ''l@x.com'', user_age = 25\<rparr>], writes = 0\<rparr>
        \<lparr>contents := Stored ([\<lparr>user_id = 1, user_name = ''Ana'', user_email = ''a@x.com'', user_age = 30\<rparr>,
           \<lparr>user_id = 2, user_name = ''Leo'', user_email = ''l@x.com'', user_age = 25\<rparr>][k := u']),
          writes := Suc (writes \<lparr>contents = Stored [\<lparr>user_id = 1, user_name = ''Ana'', user_email = ''a@x.com'', user_age = 30\<rparr>,
           \<lparr>user_id = 2, user_name = ''Leo'', user_email = ''l@x.com'', user_age = 25\<rparr>], writes = 0\<rparr>)\<rparr>)"
    by blast
  then have "k < length [\<lparr>user_id = 1, user_name = ''Ana'', user_email = ''a@x.com'', user_age = 30\<rparr>,
         \<lparr>user_id = 2, user_name = ''Leo'', user_email = ''l@x.com'', user_age = 25\<rparr>] \<and>
      user_name u' = ''Bo'' \<and>
      snd (soap_endpoint
        \<lparr>contents = Stored [\<lparr>user_id = 1, user_name = ''Ana'', user_email = ''a@x.com'', user_age = 30\<rparr>,
           \<lparr>user_id = 2, user_name = ''Leo'', user_email = ''l@x.com'', user_age = 25\<rparr>], writes = 0\<rparr>
        ''<UpdateUserRequest><id>2</id><name>Bo</name></UpdateUserRequest>'')
      = \<lparr>contents = Stored ([\<lparr>user_id = 1, user_name = ''Ana'', user_email = ''a@x.com'', user_age = 30\<rparr>,
           \<lparr>user_id = 2, user_name = ''Leo'', user_email = ''l@x.com'', user_age = 25\<rparr>][k := u']), writes = 1\<rparr>"
    by simp
  with p show ?thesis by blast
qed

section \<open>What the request interpreter extracts\<close>

lemma startswith_iff: "startswith s p \<longleftrightarrow> (\<exists>r. s = p @ r)"
  by (induction s p rule: startswith.induct) auto

lemma contains_iff: "contains s p \<longleftrightarrow> (\<exists>pre post. s = pre @ p @ post)"
proof (induction s)
  case Nil
  then show ?case by auto
next
  case (Cons c cs)
  show ?case
  proof
    assume "contains (c # cs) p"
    then consider "startswith (c # cs) p" | "contains cs p" by auto
    then show "\<exists>pre post. c # cs = pre @ p @ post"
    proof cases
      case 1
      then obtain r where "c # cs = p @ r" by (auto simp: startswith_iff)
      then have "c # cs = [] @ p @ r" by simp
      then show ?thesis by blast
    next
      case 2
      with Cons.IH obtain pre post where "cs = pre @ p @ post" by blast
      then have "c # cs = (c # pre) @ p @ post" by simp
      then show ?thesis by blast
    qed
  next
    assume "\<exists>pre post. c # cs = pre @ p @ post"
    then obtain pre post where e: "c # cs = pre @ p @ post" by blast
    show "contains (c # cs) p"
    proof (cases pre)
      case Nil
      with e have "startswith (c # cs) p" by (auto simp: startswith_iff)
      then show ?thesis by simp
    next
      case (Cons x pre')
      with e have "cs = pre' @ p @ post" by simp
      with Cons.IH have "contains cs p" by blast
      then show ?thesis by simp
    qed
  qed
qed

lemma re_search_Some:
  assumes "re_search m s = Some v"
  shows "\<exists>pre suf. s = pre @ suf \<and> m suf = Some v"
  using assms
proof (induction s)
  case Nil
  then have "[] = [] @ [] \<and> m [] = Some v" by simp
  then show ?case by (rule_tac x = "[]" in exI, rule_tac x = "[]" in exI)
next
  case (Cons c cs)
  show ?case
  proof (cases "m (c # cs)")
    case None
    with Cons.prems have "re_search m cs = Some v" by simp
    from Cons.IH[OF this] obtain pre suf where "cs = pre @ suf" "m suf = Some v" by blast
    then have "c # cs = (c # pre) @ suf \<and> m suf = Some v" by simp
    then show ?thesis by (rule_tac x = "c # pre" in exI, rule_tac x = suf in exI)
  next
    case (Some w)
    with Cons.prems have "c # cs = [] @ (c # cs) \<and> m (c # cs) = Some v" by simp
    then show ?thesis by (rule_tac x = "[]" in exI, rule_tac x = "c # cs" in exI)
  qed
qed

lemma re_search_None_iff:
  "re_search m s = None \<longleftrightarrow> (\<forall>pre suf. s = pre @ suf \<longrightarrow> m suf = None)"
proof (induction s)
  case Nil
  then show ?case by simp
next
  case (Cons c cs)
  show ?case
  proof
    assume n: "re_search m (c # cs) = None"
    then have here: "m (c # cs) = None" and rest: "re_search m cs = None"
      by (auto split: option.splits)
    show "\<forall>pre suf. c # cs = pre @ suf \<longrightarrow> m suf = None"
    proof (intro allI impI)
      fix pre suf
      assume e: "c # cs = pre @ suf"
      show "m suf = None"
      proof (cases pre)
        case Nil
        with e here show ?thesis by simp
      next
        case (Cons x pre')
        with e have "cs = pre' @ suf" by simp
        with rest Cons.IH show ?thesis by blast
      qed
    qed
  next
    assume a: "\<forall>pre suf. c # cs = pre @ suf \<longrightarrow> m suf = None"
    then have "m (c # cs) = None" by (metis append_Nil)
    moreover have "\<forall>pre suf. cs = pre @ suf \<longrightarrow> m suf = None"
      using a by (metis append_Cons)
    with Cons.IH have "re_search m cs = None" by blast
    ultimately show "re_search m (c # cs) = None" by simp
  qed
qed

lemma match_tagged_iff:
  assumes "ctag = t # ts" and "\<not> cls t"
  shows "match_tagged otag cls ctag s = Some v \<longleftrightarrow>
     (\<exists>post. s = otag @ v @ ctag @ post) \<and> v \<noteq> [] \<and> (\<forall>x\<in>set v. cls x)"
proof
  assume m: "match_tagged otag cls ctag s = Some v"
  then have sw: "startswith s otag"
    by (auto simp: match_tagged_def split: if_splits)
  then obtain rest where s: "s = otag @ rest" by (auto simp: startswith_iff)
  from m s have v: "v = takeWhile cls rest" "v \<noteq> []" "startswith (dropWhile cls rest) ctag"
    by (auto simp: match_tagged_def Let_def sw split: if_splits)
  from v(3) obtain post where "dropWhile cls rest = ctag @ post" by (auto simp: startswith_iff)
  then have "rest = v @ ctag @ post"
    using takeWhile_dropWhile_id[of cls rest] v(1) by simp
  with s have "s = otag @ v @ ctag @ post" by simp
  moreover have "\<forall>x\<in>set v. cls x" using v(1) by (auto dest: set_takeWhileD)
  ultimately show "(\<exists>post. s = otag @ v @ ctag @ post) \<and> v \<noteq> [] \<and> (\<forall>x\<in>set v. cls x)"
    using v(2) by blast
next
  assume "(\<exists>post. s = otag @ v @ ctag @ post) \<and> v \<noteq> [] \<and> (\<forall>x\<in>set v. cls x)"
  then obtain post where s: "s = otag @ v @ ctag @ post" and v: "v \<noteq> []" "\<forall>x\<in>set v. cls x"
    by blast
  have tw: "takeWhile cls (v @ t # ts @ post) = v"
    using v(2) assms(2) by (simp add: takeWhile_tail)
  have dw: "dropWhile cls (v @ t # ts @ post) = t # ts @ post"
    using v(2) assms(2) by (simp add: dropWhile_append3)
  have "startswith s otag" using s by (auto simp: startswith_iff)
  moreover have "startswith (t # ts @ post) (t # ts)" by (simp add: startswith_iff)
  ultimately show "match_tagged otag cls ctag s = Some v"
    using s v(1) tw dw assms(1) by (simp add: match_tagged_def Let_def)
qed

lemma search_tagged_Some:
  assumes "ctag = t # ts" and "\<not> cls t"
    and "re_search (match_tagged otag cls ctag) xml = Some v"
  shows "\<exists>pre post. xml = pre @ otag @ v @ ctag @ post \<and> v \<noteq> [] \<and> (\<forall>x\<in>set v. cls x)"
proof -
  from re_search_Some[OF assms(3)] obtain pre suf where
    x: "xml = pre @ suf" and m: "match_tagged otag cls ctag suf = Some v"
    by blast
  from m obtain post where p: "suf = otag @ v @ ctag @ post" and v: "v \<noteq> []" "\<forall>x\<in>set v. cls x"
    unfolding match_tagged_iff[where cls = cls, OF assms(1,2)] by blast
  from x p v have "xml = pre @ otag @ v @ ctag @ post \<and> v \<noteq> [] \<and> (\<forall>x\<in>set v. cls x)"
    by simp
  then show ?thesis by (rule_tac x = pre in exI, rule_tac x = post in exI)
qed

lemma search_tagged_None_iff:
  assumes "ctag = t # ts" and "\<not> cls t"
  shows "re_search (match_tagged otag cls ctag) xml = None \<longleftrightarrow>
     \<not> (\<exists>pre v post. xml = pre @ otag @ v @ ctag @ post \<and> v \<noteq> [] \<and> (\<forall>x\<in>set v. cls x))"
proof
  assume n: "re_search (match_tagged otag cls ctag) xml = None"
  show "\<not> (\<exists>pre v post. xml = pre @ otag @ v @ ctag @ post \<and> v \<noteq> [] \<and> (\<forall>x\<in>set v. cls x))"
  proof
    assume "\<exists>pre v post. xml = pre @ otag @ v @ ctag @ post \<and> v \<noteq> [] \<and> (\<forall>x\<in>set v. cls x)"
    then obtain pre v post where x: "xml = pre @ otag @ v @ ctag @ post"
      and v: "v \<noteq> []" "\<forall>x\<in>set v. cls x"
      by blast
    have "\<exists>post'. otag @ v @ ctag @ post = otag @ v @ ctag @ post'"
      by (rule exI[of _ post]) simp
    with v have "match_tagged otag cls ctag (otag @ v @ ctag @ post) = Some v"
      unfolding match_tagged_iff[where cls = cls, OF assms] by simp
    moreover from n x have "match_tagged otag cls ctag (otag @ v @ ctag @ post) = None"
      unfolding re_search_None_iff by simp
    ultimately show False by simp
  qed
next
  assume no: "\<not> (\<exists>pre v post. xml = pre @ otag @ v @ ctag @ post \<and> v \<noteq> [] \<and> (\<forall>x\<in>set v. cls x))"
  show "re_search (match_tagged otag cls ctag) xml = None"
  proof (cases "re_search (match_tagged otag cls ctag) xml")
    case None
    then show ?thesis .
  next
    case (Some v)
    from search_tagged_Some[where cls = cls, OF assms Some] obtain pre post where
      "xml = pre @ otag @ v @ ctag @ post \<and> v \<noteq> [] \<and> (\<forall>x\<in>set v. cls x)"
      by blast
    then have occ: "\<exists>pre v post. xml = pre @ otag @ v @ ctag @ post \<and> v \<noteq> [] \<and> (\<forall>x\<in>set v. cls x)"
      by (rule_tac x = pre in exI, rule_tac x = v in exI, rule_tac x = post in exI)
    from no occ show ?thesis by (rule notE)
  qed
qed

lemma occurrence_contains_key:
  assumes "otag = p @ key" and "xml = pre @ otag @ rest"
  shows "contains xml key"
proof -
  from assms have "xml = (pre @ p) @ key @ rest" by simp
  then have "\<exists>pre' post'. xml = pre' @ key @ post'"
    by (rule_tac x = "pre @ p" in exI, rule_tac x = rest in exI)
  then show ?thesis by (simp add: contains_iff)
qed

lemma find_text_None_iff:
  assumes "otag = p @ key" and "ctag = CHR ''<'' # ts"
  shows "find_text key otag ctag xml = None \<longleftrightarrow>
     \<not> (\<exists>pre v post. xml = pre @ otag @ v @ ctag @ post \<and> v \<noteq> [] \<and> (\<forall>x\<in>set v. not_lt x))"
proof (cases "contains xml key")
  case True
  have "\<not> not_lt CHR ''<''" by (simp add: not_lt_def)
  from search_tagged_None_iff[where cls = not_lt, OF assms(2) this] True show ?thesis
    by (simp add: find_text_def)
next
  case False
  have "\<not> (\<exists>pre v post. xml = pre @ otag @ v @ ctag @ post \<and> v \<noteq> [] \<and> (\<forall>x\<in>set v. not_lt x))"
  proof
    assume "\<exists>pre v post. xml = pre @ otag @ v @ ctag @ post \<and> v \<noteq> [] \<and> (\<forall>x\<in>set v. not_lt x)"
    then obtain pre v post where "xml = pre @ otag @ (v @ ctag @ post)" by auto
    from occurrence_contains_key[OF assms(1) this] False show False by simp
  qed
  with False show ?thesis by (simp add: find_text_def)
qed

lemma find_int_None_iff:
  assumes "otag = p @ key" and "ctag = CHR ''<'' # ts"
  shows "find_int key otag ctag xml = Inr None \<longleftrightarrow>
     \<not> (\<exists>pre v post. xml = pre @ otag @ v @ ctag @ post \<and> v \<noteq> [] \<and> (\<forall>x\<in>set v. is_digit x))"
proof (cases "contains xml key")
  case True
  have "\<not> is_digit CHR ''<''" by (simp add: is_digit_def)
  from search_tagged_None_iff[where cls = is_digit, OF assms(2) this]
  have "re_search (match_tagged otag is_digit ctag) xml = None \<longleftrightarrow>
     \<not> (\<exists>pre v post. xml = pre @ otag @ v @ ctag @ post \<and> v \<noteq> [] \<and> (\<forall>x\<in>set v. is_digit x))" .
  moreover have "find_int key otag ctag xml = Inr None \<longleftrightarrow>
     re_search (match_tagged otag is_digit ctag) xml = None"
    using True by (simp add: find_int_def split: option.splits sum.splits)
  ultimately show ?thesis by simp
next
  case False
  have "\<not> (\<exists>pre v post. xml = pre @ otag @ v @ ctag @ post \<and> v \<noteq> [] \<and> (\<forall>x\<in>set v. is_digit x))"
  proof
    assume "\<exists>pre v post. xml = pre @ otag @ v @ ctag @ post \<and> v \<noteq> [] \<and> (\<forall>x\<in>set v. is_digit x)"
    then obtain pre v post where "xml = pre @ otag @ (v @ ctag @ post)" by auto
    from occurrence_contains_key[OF assms(1) this] False show False by simp
  qed
  with False show ?thesis by (simp add: find_int_def)
qed

lemma find_text_Some:
  assumes "ctag = CHR ''<'' # ts" and "find_text key otag ctag xml = Some v"
  shows "\<exists>pre post. xml = pre @ otag @ v @ ctag @ post \<and> v \<noteq> [] \<and> (\<forall>x\<in>set v. not_lt x)"
proof -
  have nl: "\<not> not_lt CHR ''<''" by (simp add: not_lt_def)
  from assms(2) have "re_search (match_tagged otag not_lt ctag) xml = Some v"
    by (simp add: find_text_def split: if_splits)
  from search_tagged_Some[where cls = not_lt, OF assms(1) nl this] show ?thesis .
qed

lemma find_int_Some:
  assumes "ctag = CHR ''<'' # ts" and "find_int key otag ctag xml = Inr (Some n)"
  shows "\<exists>pre v post. xml = pre @ otag @ v @ ctag @ post \<and> v \<noteq> [] \<and> (\<forall>x\<in>set v. is_digit x) \<and>
     length v \<le> max_str_digits \<and> n = int_of_digits v"
proof -
  have nd: "\<not> is_digit CHR ''<''" by (simp add: is_digit_def)
  from assms(2) obtain v where s: "re_search (match_tagged otag is_digit ctag) xml = Some v"
    and n: "length v \<le> max_str_digits" "n = int_of_digits v"
    by (auto simp: find_int_def py_int_def split: if_splits option.splits sum.splits)
  from search_tagged_Some[where cls = is_digit, OF assms(1) nd s] obtain pre post where
    "xml = pre @ otag @ v @ ctag @ post \<and> v \<noteq> [] \<and> (\<forall>x\<in>set v. is_digit x)"
    by blast
  with n have "xml = pre @ otag @ v @ ctag @ post \<and> v \<noteq> [] \<and> (\<forall>x\<in>set v. is_digit x) \<and>
     length v \<le> max_str_digits \<and> n = int_of_digits v"
    by simp
  then show ?thesis
    by (rule_tac x = pre in exI, rule_tac x = v in exI, rule_tac x = post in exI)
qed

lemma find_int_raises:
  assumes "ctag = CHR ''<'' # ts" and "find_int key otag ctag xml = Inl e"
  shows "e = ValueError \<and>
     (\<exists>pre v post. xml = pre @ otag @ v @ ctag @ post \<and> (\<forall>x\<in>set v. is_digit x) \<and>
        max_str_digits < length v)"
proof -
  have nd: "\<not> is_digit CHR ''<''" by (simp add: is_digit_def)
  from assms(2) obtain v where s: "re_search (match_tagged otag is_digit ctag) xml = Some v"
    and n: "max_str_digits < length v" "e = ValueError"
    by (auto simp: find_int_def py_int_def split: if_splits option.splits sum.splits)
  from search_tagged_Some[where cls = is_digit, OF assms(1) nd s] obtain pre post where
    "xml = pre @ otag @ v @ ctag @ post \<and> v \<noteq> [] \<and> (\<forall>x\<in>set v. is_digit x)"
    by blast
  with n have "xml = pre @ otag @ v @ ctag @ post \<and> (\<forall>x\<in>set v. is_digit x) \<and>
        max_str_digits < length v"
    by simp
  then have "\<exists>pre v post. xml = pre @ otag @ v @ ctag @ post \<and> (\<forall>x\<in>set v. is_digit x) \<and>
        max_str_digits < length v"
    by (rule_tac x = pre in exI, rule_tac x = v in exI, rule_tac x = post in exI)
  with n(2) show ?thesis by simp
qed





text \<open>
  C9 as stated fails: the value inside the first \<^verbatim>\<open><id>\<close> tag is not numeric, and the
  field is not omitted, because the search goes on to a later tag that holds digits.
\<close>

theorem parse_takes_later_id_counterexample:
  "parse_soap_request ''<GetUserRequest><id>x</id><id>7</id></GetUserRequest>''
     = Inr (Some (''GetUser'', \<lparr>p_id = Some 7, p_name = None, p_email = None, p_age = None\<rparr>))"
  by code_simp

lemma parse_fields:
  assumes "parse_soap_request xml = Inr (Some (op_name, ps))"
  shows "find_int ''id>'' ''<id>'' ''</id>'' xml = Inr (p_id ps)"
    and "p_name ps = find_text ''name>'' ''<name>'' ''</name>'' xml"
    and "p_email ps = find_text ''email>'' ''<email>'' ''</email>'' xml"
    and "find_int ''age>'' ''<age>'' ''</age>'' xml = Inr (p_age ps)"
  using assms
  by (auto simp: parse_soap_request_def Let_def split: option.splits sum.splits)

lemma parse_raises:
  assumes "parse_soap_request xml = Inl e"
  shows "find_int ''id>'' ''<id>'' ''</id>'' xml = Inl e \<or>
     find_int ''age>'' ''<age>'' ''</age>'' xml = Inl e"
  using assms
  by (auto simp: parse_soap_request_def Let_def split: option.splits sum.splits)

lemma all_not_lt: "(\<forall>x\<in>set v. not_lt x) \<longleftrightarrow> CHR ''<'' \<notin> set v"
  by (auto simp: not_lt_def)

lemma parse_raise_cause:
  assumes "parse_soap_request xml = Inl e"
  shows "e = ValueError \<and>
     ((\<exists>pre v post. xml = pre @ ''<id>'' @ v @ ''</id>'' @ post \<and> (\<forall>c\<in>set v. is_digit c) \<and>
          4300 < length v) \<or>
      (\<exists>pre v post. xml = pre @ ''<age>'' @ v @ ''</age>'' @ post \<and> (\<forall>c\<in>set v. is_digit c) \<and>
          4300 < length v))"
proof -
  from parse_raises[OF assms] consider
    "find_int ''id>'' ''<id>'' ''</id>'' xml = Inl e" | "find_int ''age>'' ''<age>'' ''</age>'' xml = Inl e"
    by blast
  then show ?thesis
  proof cases
    case 1
    have "''</id>'' = CHR ''<'' # ''/id>''" by simp
    from find_int_raises[OF this 1] show ?thesis by (simp add: max_str_digits_def)
  next
    case 2
    have "''</age>'' = CHR ''<'' # ''/age>''" by simp
    from find_int_raises[OF this 2] show ?thesis by (simp add: max_str_digits_def)
  qed
qed

text \<open>
  C9, amended. On an ASCII payload the parser raises nothing but the \<^verbatim>\<open>ValueError\<close>
  of \<^verbatim>\<open>int\<close>, and only when the payload holds \<^verbatim>\<open><id>\<close> or \<^verbatim>\<open><age>\<close>, a run of more than
  4300 digits, and the closing tag: a non-numeric value raises no error. When the
  parser returns with an operation, the field id (and likewise age) is omitted from the
  parameters exactly when the payload holds no occurrence at all of \<^verbatim>\<open><id>\<close>, a
  non-empty run of digits, \<^verbatim>\<open></id>\<close>: so it is omitted when the only tag of that name
  holds a non-numeric value, and when a later tag of that name holds digits that value
  is taken. The other fields do not depend on it: name (and likewise email) is present
  exactly when the payload holds an occurrence of \<^verbatim>\<open><name>\<close>, a non-empty text without
  \<^verbatim>\<open><\<close>, \<^verbatim>\<open></name>\<close>.
\<close>

theorem parse_field_omitted_iff:
  assumes "is_ascii xml"
  shows "(\<forall>e. parse_soap_request xml = Inl e \<longrightarrow>
            e = ValueError \<and>
            ((\<exists>pre v post. xml = pre @ ''<id>'' @ v @ ''</id>'' @ post \<and> (\<forall>c\<in>set v. is_digit c) \<and>
                 4300 < length v) \<or>
             (\<exists>pre v post. xml = pre @ ''<age>'' @ v @ ''</age>'' @ post \<and> (\<forall>c\<in>set v. is_digit c) \<and>
                 4300 < length v))) \<and>
         (\<forall>op_name ps. parse_soap_request xml = Inr (Some (op_name, ps)) \<longrightarrow>
           (p_id ps = None \<longleftrightarrow>
              \<not> (\<exists>pre v post. xml = pre @ ''<id>'' @ v @ ''</id>'' @ post \<and> v \<noteq> [] \<and>
                   (\<forall>c\<in>set v. is_digit c))) \<and>
           (p_age ps = None \<longleftrightarrow>
              \<not> (\<exists>pre v post. xml = pre @ ''<age>'' @ v @ ''</age>'' @ post \<and> v \<noteq> [] \<and>
                   (\<forall>c\<in>set v. is_digit c))) \<and>
           (p_name ps = None \<longleftrightarrow>
              \<not> (\<exists>pre v post. xml = pre @ ''<name>'' @ v @ ''</name>'' @ post \<and> v \<noteq> [] \<and>
                   CHR ''<'' \<notin> set v)) \<and>
           (p_email ps = None \<longleftrightarrow>
              \<not> (\<exists>pre v post. xml = pre @ ''<email>'' @ v @ ''</email>'' @ post \<and> v \<noteq> [] \<and>
                   CHR ''<'' \<notin> set v)) \<and>
           (\<forall>n. p_id ps = Some n \<longrightarrow>
              (\<exists>pre v post. xml = pre @ ''<id>'' @ v @ ''</id>'' @ post \<and> v \<noteq> [] \<and>
                 (\<forall>c\<in>set v. is_digit c) \<and> length v \<le> 4300 \<and> n = int_of_digits v)) \<and>
           (\<forall>n. p_age ps = Some n \<longrightarrow>
              (\<exists>pre v post. xml = pre @ ''<age>'' @ v @ ''</age>'' @ post \<and> v \<noteq> [] \<and>
                 (\<forall>c\<in>set v. is_digit c) \<and> length v \<le> 4300 \<and> n = int_of_digits v)))"
proof (intro conjI allI impI)
  fix e
  assume "parse_soap_request xml = Inl e"
  then have "e = ValueError \<and>
     ((\<exists>pre v post. xml = pre @ ''<id>'' @ v @ ''</id>'' @ post \<and> (\<forall>c\<in>set v. is_digit c) \<and>
          4300 < length v) \<or>
      (\<exists>pre v post. xml = pre @ ''<age>'' @ v @ ''</age>'' @ post \<and> (\<forall>c\<in>set v. is_digit c) \<and>
          4300 < length v))"
    by (rule parse_raise_cause)
  then show "e = ValueError"
    and "(\<exists>pre v post. xml = pre @ ''<id>'' @ v @ ''</id>'' @ post \<and> (\<forall>c\<in>set v. is_digit c) \<and>
          4300 < length v) \<or>
      (\<exists>pre v post. xml = pre @ ''<age>'' @ v @ ''</age>'' @ post \<and> (\<forall>c\<in>set v. is_digit c) \<and>
          4300 < length v)"
    by simp_all
next
  fix op_name ps
  assume p: "parse_soap_request xml = Inr (Some (op_name, ps))"
  note f = parse_fields[OF p]
  have i: "find_int ''id>'' ''<id>'' ''</id>'' xml = Inr None \<longleftrightarrow>
      \<not> (\<exists>pre v post. xml = pre @ ''<id>'' @ v @ ''</id>'' @ post \<and> v \<noteq> [] \<and>
           (\<forall>c\<in>set v. is_digit c))"
    by (rule find_int_None_iff[where p = "''<''" and ts = "''/id>''"]) simp_all
  then show "p_id ps = None \<longleftrightarrow>
      \<not> (\<exists>pre v post. xml = pre @ ''<id>'' @ v @ ''</id>'' @ post \<and> v \<noteq> [] \<and>
           (\<forall>c\<in>set v. is_digit c))"
    unfolding f(1) by simp
  have a: "find_int ''age>'' ''<age>'' ''</age>'' xml = Inr None \<longleftrightarrow>
      \<not> (\<exists>pre v post. xml = pre @ ''<age>'' @ v @ ''</age>'' @ post \<and> v \<noteq> [] \<and>
           (\<forall>c\<in>set v. is_digit c))"
    by (rule find_int_None_iff[where p = "''<''" and ts = "''/age>''"]) simp_all
  then show "p_age ps = None \<longleftrightarrow>
      \<not> (\<exists>pre v post. xml = pre @ ''<age>'' @ v @ ''</age>'' @ post \<and> v \<noteq> [] \<and>
           (\<forall>c\<in>set v. is_digit c))"
    unfolding f(4) by simp
  show "p_name ps = None \<longleftrightarrow>
      \<not> (\<exists>pre v post. xml = pre @ ''<name>'' @ v @ ''</name>'' @ post \<and> v \<noteq> [] \<and>
           CHR ''<'' \<notin> set v)"
    unfolding f(2) all_not_lt[symmetric]
    by (rule find_text_None_iff[where p = "''<''" and ts = "''/name>''"]) simp_all
  show "p_email ps = None \<longleftrightarrow>
      \<not> (\<exists>pre v post. xml = pre @ ''<email>'' @ v @ ''</email>'' @ post \<and> v \<noteq> [] \<and>
           CHR ''<'' \<notin> set v)"
    unfolding f(3) all_not_lt[symmetric]
    by (rule find_text_None_iff[where p = "''<''" and ts = "''/email>''"]) simp_all
  show "\<And>n. p_id ps = Some n \<Longrightarrow>
      \<exists>pre v post. xml = pre @ ''<id>'' @ v @ ''</id>'' @ post \<and> v \<noteq> [] \<and>
         (\<forall>c\<in>set v. is_digit c) \<and> length v \<le> 4300 \<and> n = int_of_digits v"
  proof -
    fix n
    assume "p_id ps = Some n"
    with f(1) have "find_int ''id>'' ''<id>'' ''</id>'' xml = Inr (Some n)" by simp
    from find_int_Some[where ts = "''/id>''", OF _ this]
    show "\<exists>pre v post. xml = pre @ ''<id>'' @ v @ ''</id>'' @ post \<and> v \<noteq> [] \<and>
         (\<forall>c\<in>set v. is_digit c) \<and> length v \<le> 4300 \<and> n = int_of_digits v"
      by (simp add: max_str_digits_def)
  qed
  show "\<And>n. p_age ps = Some n \<Longrightarrow>
      \<exists>pre v post. xml = pre @ ''<age>'' @ v @ ''</age>'' @ post \<and> v \<noteq> [] \<and>
         (\<forall>c\<in>set v. is_digit c) \<and> length v \<le> 4300 \<and> n = int_of_digits v"
  proof -
    fix n
    assume "p_age ps = Some n"
    with f(4) have "find_int ''age>'' ''<age>'' ''</age>'' xml = Inr (Some n)" by simp
    from find_int_Some[where ts = "''/age>''", OF _ this]
    show "\<exists>pre v post. xml = pre @ ''<age>'' @ v @ ''</age>'' @ post \<and> v \<noteq> [] \<and>
         (\<forall>c\<in>set v. is_digit c) \<and> length v \<le> 4300 \<and> n = int_of_digits v"
      by (simp add: max_str_digits_def)
  qed
qed

theorem parse_field_omitted_iff_witness:
  "is_ascii ''<UpdateUserRequest><id>x</id><name>Bo</name></UpdateUserRequest>'' \<and>
   parse_soap_request ''<UpdateUserRequest><id>x</id><name>Bo</name></UpdateUserRequest>''
     = Inr (Some (''UpdateUser'', \<lparr>p_id = None, p_name = Some ''Bo'', p_email = None, p_age = None\<rparr>)) \<and>
   \<not> (\<exists>pre v post. ''<UpdateUserRequest><id>x</id><name>Bo</name></UpdateUserRequest>''
          = pre @ ''<id>'' @ v @ ''</id>'' @ post \<and> v \<noteq> [] \<and> (\<forall>c\<in>set v. is_digit c)) \<and>
   (\<exists>pre v post. ''<UpdateUserRequest><id>x</id><name>Bo</name></UpdateUserRequest>''
          = pre @ ''<name>'' @ v @ ''</name>'' @ post \<and> v \<noteq> [] \<and> CHR ''<'' \<notin> set v)"
proof -
  have asc: "is_ascii ''<UpdateUserRequest><id>x</id><name>Bo</name></UpdateUserRequest>''"
    by code_simp
  have p: "parse_soap_request ''<UpdateUserRequest><id>x</id><name>Bo</name></UpdateUserRequest>''
     = Inr (Some (''UpdateUser'', \<lparr>p_id = None, p_name = Some ''Bo'', p_email = None, p_age = None\<rparr>))"
    by code_simp
  note six = parse_field_omitted_iff[OF asc, THEN conjunct2, THEN spec, THEN spec, THEN mp, OF p]
  note t_id = six[THEN conjunct1]
  note t_name = six[THEN conjunct2, THEN conjunct2, THEN conjunct1]
  have i: "p_id \<lparr>p_id = None, p_name = Some ''Bo'', p_email = None, p_age = None\<rparr> = (None :: int option)"
    by simp
  have n: "p_name \<lparr>p_id = (None :: int option), p_name = Some ''Bo'', p_email = None, p_age = (None :: int option)\<rparr> \<noteq> None"
    by simp
  from t_id i have no_id: "\<not> (\<exists>pre v post. ''<UpdateUserRequest><id>x</id><name>Bo</name></UpdateUserRequest>''
          = pre @ ''<id>'' @ v @ ''</id>'' @ post \<and> v \<noteq> [] \<and> (\<forall>c\<in>set v. is_digit c))"
    by (simp only: simp_thms)
  from t_name n have name: "\<exists>pre v post. ''<UpdateUserRequest><id>x</id><name>Bo</name></UpdateUserRequest>''
          = pre @ ''<name>'' @ v @ ''</name>'' @ post \<and> v \<noteq> [] \<and> CHR ''<'' \<notin> set v"
    by (simp only: simp_thms)
  from asc p no_id name show ?thesis by (intro conjI)
qed

section \<open>Responses and failures\<close>






end
